theory Spec2Isabelle
  imports Main
begin

section \<open>The Ledger of main.js: data\<close>

text \<open>
  A shallow embedding of the class \<^verbatim>\<open>Ledger\<close> of \<^verbatim>\<open>src/main.js\<close>. The classes
  \<^verbatim>\<open>Chain\<close> (\<^verbatim>\<open>./chain\<close>) and \<^verbatim>\<open>Node\<close> (\<^verbatim>\<open>./node\<close>) are not part of the sources:
  the methods of \<^verbatim>\<open>Chain\<close> that the Ledger calls are parameters of the functions below, and
  every call of \<^verbatim>\<open>this.node.send\<close> and of \<^verbatim>\<open>setTimeout\<close> is recorded as an effect, in the
  order of the calls. Calls of \<^verbatim>\<open>console.log\<close> are left out.

  Keys are values on which \<^verbatim>\<open>===\<close> and the membership test of a \<^verbatim>\<open>Set\<close> are equality
  (strings, say), block and peer identifiers are strings.

  The file \<^verbatim>\<open>src/unnamed/part_000\<close> is a variant of the same class: its methods
  \<^verbatim>\<open>put\<close>, \<^verbatim>\<open>get\<close>, \<^verbatim>\<open>get_history\<close> and \<^verbatim>\<open>get_all\<close> are those of \<^verbatim>\<open>main.js\<close>, its
  handlers keep no list of chain lengths and no lists of missing and received blocks.
  The handlers below are those of \<^verbatim>\<open>main.js\<close>.
\<close>

type_synonym block_id = string
type_synonym peer_id = string

text \<open>
  Modelled from the spec: the block map that \<^verbatim>\<open>Chain.mapBlocks\<close> builds and
  \<^verbatim>\<open>Chain.compare\<close> reads; the class \<^verbatim>\<open>Chain\<close> is not in the sources. The spec
  describes it as a compact mapping from position to block identifier. The Ledger only
  passes it on.
\<close>

type_synonym block_map = "block_id list"

text \<open>The payload \<^verbatim>\<open>{ key, value }\<close> of a block.\<close>

record ('k, 'v) entry =
  key :: 'k
  val :: 'v

text \<open>
  A block as the Ledger reads it: \<^verbatim>\<open>block.block_id\<close> and \<^verbatim>\<open>block.data\<close>. A block that
  arrived from a peer is whatever the peer sent, so \<^verbatim>\<open>block.data\<close> may be undefined
  (\<open>None\<close>); reading \<^verbatim>\<open>block.data.key\<close> then raises a TypeError.
\<close>

record ('k, 'v) block =
  block_id :: block_id
  data :: "('k, 'v) entry option"

datatype error = TypeError | StoreError string

text \<open>How a call ends: with a value, or with an exception that reaches the caller.\<close>

datatype 'a completion = Returns 'a | Throws error

text \<open>The values the accessors return.\<close>

datatype ('k, 'v) jsval =
    Undefined
  | Str string
  | Data "('k, 'v) entry"
  | Datas "('k, 'v) entry list"

text \<open>
  The first argument of \<^verbatim>\<open>node.send\<close> is \<^verbatim>\<open>{ to: id }\<close> or the name of a channel, the
  second is the message.
\<close>

datatype target = To peer_id | Channel string

datatype ('k, 'v) content =
    Length_msg nat
  | Block_map_msg block_map
  | Request_msg string
  | Block_id_msg block_id
  | Block_msg "('k, 'v) block"
  | Key_msg 'k

text \<open>
  \<open>Send t c\<close> is \<^verbatim>\<open>this.node.send(t, c)\<close>; \<open>Set_timeout ms k\<close> is
  \<^verbatim>\<open>setTimeout(() => this.get(k), ms)\<close>.
\<close>

datatype ('k, 'v) effect =
    Send target "('k, 'v) content"
  | Set_timeout nat 'k

text \<open>An entry \<^verbatim>\<open>{ id, length }\<close> of \<^verbatim>\<open>this.chain_lengths\<close>.\<close>

record chain_report =
  report_id :: peer_id
  report_length :: nat

text \<open>
  The fields of a Ledger. \<open>blocks\<close> is \<^verbatim>\<open>this.chain.blocks\<close>. \<open>core\<close> is the property
  \<^verbatim>\<open>this.core\<close> that the handler of \<^verbatim>\<open>{ from: "" }\<close> reads: \<open>None\<close> when the object has no
  such property (reading it gives undefined), \<open>Some ps\<close> when it is a transport whose
  \<^verbatim>\<open>getPeers()\<close> has the keys \<open>ps\<close>.
\<close>

record ('k, 'v) ledger =
  name :: string
  blocks :: "('k, 'v) block list"
  core :: "peer_id list option"
  chain_lengths :: "chain_report list"
  missing_blocks :: "block_id list"
  received_blocks :: "('k, 'v) block list"
  errors :: "error list"
  retries :: nat
  tries :: nat

text \<open>
  The constructor. \<open>uuid\<close> is the result of \<^verbatim>\<open>randomUUID()\<close>, used when no name (or the
  empty one) is given; \<open>chain0\<close> is what \<^verbatim>\<open>new Chain()\<close> holds. The constructor assigns
  no property \<^verbatim>\<open>core\<close>: the transport is \<^verbatim>\<open>this.node.core\<close>.
\<close>

definition Ledger :: "string option \<Rightarrow> string \<Rightarrow> ('k, 'v) block list \<Rightarrow> ('k, 'v) ledger" where
  "Ledger nm uuid chain0 =
     \<lparr> name = (case nm of None \<Rightarrow> uuid | Some n \<Rightarrow> if n = [] then uuid else n),
       blocks = chain0,
       core = None,
       chain_lengths = [],
       missing_blocks = [],
       received_blocks = [],
       errors = [],
       retries = 3,
       tries = 0 \<rparr>"

section \<open>The accessors\<close>

subsection \<open>put\<close>

text \<open>
  \<^verbatim>\<open>put(key, value)\<close>: \<open>cput\<close> is \<^verbatim>\<open>this.chain.put\<close>, which returns the new block or
  raises, and leaves the chain's blocks in some state either way. There is no
  \<^verbatim>\<open>try\<close> around the body.
\<close>

definition put ::
  "(('k, 'v) entry \<Rightarrow> ('k, 'v) block list \<Rightarrow> (error + ('k, 'v) block) \<times> ('k, 'v) block list) \<Rightarrow>
   ('k, 'v) ledger \<Rightarrow> 'k \<Rightarrow> 'v \<Rightarrow>
   ('k, 'v) ledger \<times> ('k, 'v) effect list \<times> ('k, 'v) block completion" where
  "put cput s k v =
     (case cput \<lparr> key = k, val = v \<rparr> (blocks s) of
        (Inl e, bs) \<Rightarrow> (s\<lparr>blocks := bs\<rparr>, [], Throws e)
      | (Inr block, bs) \<Rightarrow>
          (s\<lparr>blocks := bs\<rparr>, [Send (Channel ''block'') (Block_msg block)], Returns block))"

text \<open>
  Calls of \<^verbatim>\<open>put\<close> made one after the other by one caller: an exception of a call
  reaches the caller, and the calls after it are not made.
\<close>

fun put_each ::
  "(('k, 'v) entry \<Rightarrow> ('k, 'v) block list \<Rightarrow> (error + ('k, 'v) block) \<times> ('k, 'v) block list) \<Rightarrow>
   ('k, 'v) ledger \<Rightarrow> ('k \<times> 'v) list \<Rightarrow>
   ('k, 'v) ledger \<times> ('k, 'v) effect list \<times> ('k, 'v) block completion list" where
  "put_each cput s [] = (s, [], [])"
| "put_each cput s ((k, v) # kvs) =
     (case put cput s k v of
        (s', effs, Throws e) \<Rightarrow> (s', effs, [Throws e])
      | (s', effs, Returns block) \<Rightarrow>
          (case put_each cput s' kvs of
             (s'', effs', rs) \<Rightarrow> (s'', effs @ effs', Returns block # rs)))"

text \<open>
  What the theorems on \<^verbatim>\<open>put\<close> followed by a read ask of \<^verbatim>\<open>this.chain.put\<close>: it returns
  a block that holds the payload, and has stored it at the end of the blocks.
\<close>

definition appends ::
  "(('k, 'v) entry \<Rightarrow> ('k, 'v) block list \<Rightarrow> (error + ('k, 'v) block) \<times> ('k, 'v) block list) \<Rightarrow> bool"
  where
  "appends cput = (\<forall>d bs. \<exists>b. cput d bs = (Inr b, bs @ [b]) \<and> data b = Some d)"

subsection \<open>get\<close>

text \<open>
  \<^verbatim>\<open>blocks.find(block => block.data.key === key)\<close> on a list already reversed: the
  first block whose key matches, a TypeError at a block without data met before it.
\<close>

fun find_key :: "'k \<Rightarrow> ('k, 'v) block list \<Rightarrow> error + ('k, 'v) block option" where
  "find_key k [] = Inr None"
| "find_key k (b # bs) =
     (case data b of
        None \<Rightarrow> Inl TypeError
      | Some d \<Rightarrow> if key d = k then Inr (Some b) else find_key k bs)"

text \<open>
  The chain holds no block for the key: every block has data, and no key matches. This is
  when the scan ends without a match (\<open>find_key_miss\<close> below).
\<close>

definition absent :: "'k \<Rightarrow> ('k, 'v) block list \<Rightarrow> bool" where
  "absent k bs = list_all (\<lambda>b. case data b of None \<Rightarrow> False | Some d \<Rightarrow> key d \<noteq> k) bs"

text \<open>Every block of the chain has data, as the blocks that \<^verbatim>\<open>put\<close> creates have.\<close>

definition well_formed :: "('k, 'v) block list \<Rightarrow> bool" where
  "well_formed bs = list_all (\<lambda>b. data b \<noteq> None) bs"

text \<open>The payloads of the blocks of a chain, oldest first.\<close>

definition chain_entries :: "('k, 'v) block list \<Rightarrow> ('k, 'v) entry list" where
  "chain_entries bs = List.map_filter data bs"

text \<open>The body of the \<^verbatim>\<open>try\<close> block of \<^verbatim>\<open>get\<close>; falling off its end returns undefined.\<close>

definition get_try ::
  "('k, 'v) ledger \<Rightarrow> 'k \<Rightarrow>
   error + ('k, 'v) ledger \<times> ('k, 'v) effect list \<times> ('k, 'v) jsval" where
  "get_try s k =
     (case find_key k (rev (blocks s)) of
        Inl e \<Rightarrow> Inl e
      | Inr (Some found) \<Rightarrow>
          Inr (s\<lparr>tries := 0\<rparr>, [],
               (case data found of None \<Rightarrow> Undefined | Some d \<Rightarrow> Data d))
      | Inr None \<Rightarrow>
          if tries s < retries s then
            (let s' = s\<lparr>tries := tries s + 1\<rparr>
             in Inr (s', [Send (Channel ''request'') (Key_msg k), Set_timeout (tries s' * 500) k],
                     Undefined))
          else Inr (s, [], Str ''unable to find.''))"

text \<open>
  \<^verbatim>\<open>try { ... } catch (error) { this.errors.push(error) }\<close>, the frame of the three
  readers: the exception is logged and the method returns undefined.
\<close>

definition try_catch ::
  "('k, 'v) ledger \<Rightarrow>
   error + ('k, 'v) ledger \<times> ('k, 'v) effect list \<times> ('k, 'v) jsval \<Rightarrow>
   ('k, 'v) ledger \<times> ('k, 'v) effect list \<times> ('k, 'v) jsval completion" where
  "try_catch s body =
     (case body of
        Inl error \<Rightarrow> (s\<lparr>errors := errors s @ [error]\<rparr>, [], Returns Undefined)
      | Inr (s', effs, v) \<Rightarrow> (s', effs, Returns v))"

definition get ::
  "('k, 'v) ledger \<Rightarrow> 'k \<Rightarrow>
   ('k, 'v) ledger \<times> ('k, 'v) effect list \<times> ('k, 'v) jsval completion" where
  "get s k = try_catch s (get_try s k)"

subsection \<open>The retries of get\<close>

text \<open>
  A call of \<^verbatim>\<open>get\<close> and the calls that its timers make: when the call has set a timer,
  the callback \<^verbatim>\<open>() => this.get(key)\<close> runs later. Other handlers may run while the
  timer is pending: \<open>between n bs\<close> is what they have made of the blocks \<open>bs\<close> when the
  timer set by call number \<open>n\<close> fires (\<open>undisturbed\<close> when nothing else runs). No other
  call of \<^verbatim>\<open>get\<close> runs in between.
  The result is the last state, the effects of all the calls in order, and what each call
  returned: the head to the caller of \<^verbatim>\<open>get\<close>, the others to the timer.
\<close>

fun timeouts :: "('k, 'v) effect list \<Rightarrow> 'k list" where
  "timeouts [] = []"
| "timeouts (Send t c # effs) = timeouts effs"
| "timeouts (Set_timeout ms k # effs) = k # timeouts effs"

definition undisturbed :: "nat \<Rightarrow> ('k, 'v) block list \<Rightarrow> ('k, 'v) block list" where
  "undisturbed n bs = bs"

function get_chain ::
  "(nat \<Rightarrow> ('k, 'v) block list \<Rightarrow> ('k, 'v) block list) \<Rightarrow> nat \<Rightarrow> ('k, 'v) ledger \<Rightarrow> 'k \<Rightarrow>
   ('k, 'v) ledger \<times> ('k, 'v) effect list \<times> ('k, 'v) jsval completion list" where
  "get_chain between n s k =
     (case get s k of
        (s', effs, r) \<Rightarrow>
          (case timeouts effs of
             [] \<Rightarrow> (s', effs, [r])
           | k' # _ \<Rightarrow>
               (case get_chain between (Suc n) (s'\<lparr>blocks := between n (blocks s')\<rparr>) k' of
                  (s'', effs', rs) \<Rightarrow> (s'', effs @ effs', r # rs))))"
  by pat_completeness auto
termination
proof (relation "measure (\<lambda>(between, n, s, k). retries s - tries s)", goal_cases)
  case 1
  show ?case by simp
next
  case 2
  then show ?case
    by (auto simp: get_def get_try_def try_catch_def Let_def
        split: sum.splits option.splits if_splits)
qed

declare get_chain.simps [simp del]

text \<open>Calls of \<^verbatim>\<open>get\<close> made one after the other, before any timer fires.\<close>

fun get_each ::
  "('k, 'v) ledger \<Rightarrow> 'k list \<Rightarrow>
   ('k, 'v) ledger \<times> ('k, 'v) effect list \<times> ('k, 'v) jsval completion list" where
  "get_each s [] = (s, [], [])"
| "get_each s (k # ks) =
     (case get s k of
        (s', effs, r) \<Rightarrow>
          (case get_each s' ks of
             (s'', effs', rs) \<Rightarrow> (s'', effs @ effs', r # rs)))"

text \<open>The keys requested on the channel \<^verbatim>\<open>request\<close>, and the delays of the timers set.\<close>

fun key_requests :: "('k, 'v) effect list \<Rightarrow> 'k list" where
  "key_requests [] = []"
| "key_requests (Send (Channel c) (Key_msg k) # effs) =
     (if c = ''request'' then k # key_requests effs else key_requests effs)"
| "key_requests (e # effs) = key_requests effs"

fun delays :: "('k, 'v) effect list \<Rightarrow> nat list" where
  "delays [] = []"
| "delays (Set_timeout ms k # effs) = ms # delays effs"
| "delays (e # effs) = delays effs"

subsection \<open>get_history\<close>

text \<open>
  \<^verbatim>\<open>blocks.filter(block => block.data.key === key)\<close>: every block is visited, so a
  block without data raises wherever it stands.
\<close>

fun filter_key :: "'k \<Rightarrow> ('k, 'v) block list \<Rightarrow> error + ('k, 'v) block list" where
  "filter_key k [] = Inr []"
| "filter_key k (b # bs) =
     (case data b of
        None \<Rightarrow> Inl TypeError
      | Some d \<Rightarrow>
          (case filter_key k bs of
             Inl e \<Rightarrow> Inl e
           | Inr kept \<Rightarrow> Inr (if key d = k then b # kept else kept)))"

text \<open>
  \<^verbatim>\<open>.map(block => block.data)\<close> on the blocks the filter kept; each of them has data
  (\<open>filter_key_data\<close> below), so no element of the result is undefined.
\<close>

definition get_history_try ::
  "('k, 'v) ledger \<Rightarrow> 'k \<Rightarrow>
   error + ('k, 'v) ledger \<times> ('k, 'v) effect list \<times> ('k, 'v) jsval" where
  "get_history_try s k =
     (case filter_key k (blocks s) of
        Inl e \<Rightarrow> Inl e
      | Inr kept \<Rightarrow> Inr (s, [], Datas (List.map_filter data kept)))"

definition get_history ::
  "('k, 'v) ledger \<Rightarrow> 'k \<Rightarrow>
   ('k, 'v) ledger \<times> ('k, 'v) effect list \<times> ('k, 'v) jsval completion" where
  "get_history s k = try_catch s (get_history_try s k)"

subsection \<open>get_all\<close>

text \<open>
  The filter of \<^verbatim>\<open>get_all\<close> over \<^verbatim>\<open>entries\<close>, with the set \<^verbatim>\<open>latest\<close> as it stands
  before the element is visited. An undefined entry raises at \<^verbatim>\<open>entry.key\<close>.
\<close>

fun latest_filter :: "'k set \<Rightarrow> ('k, 'v) entry option list \<Rightarrow> error + ('k, 'v) entry list" where
  "latest_filter latest [] = Inr []"
| "latest_filter latest (None # es) = Inl TypeError"
| "latest_filter latest (Some entry # es) =
     (let isDuplicate = (key entry \<in> latest)
      in case latest_filter (insert (key entry) latest) es of
           Inl e \<Rightarrow> Inl e
         | Inr kept \<Rightarrow> Inr (if \<not> isDuplicate then entry # kept else kept))"

definition get_all_try ::
  "('k, 'v) ledger \<Rightarrow>
   error + ('k, 'v) ledger \<times> ('k, 'v) effect list \<times> ('k, 'v) jsval" where
  "get_all_try s =
     (let entries = rev (map data (blocks s))
      in case latest_filter {} entries of
           Inl e \<Rightarrow> Inl e
         | Inr latest_entries \<Rightarrow> Inr (s, [], Datas latest_entries))"

definition get_all ::
  "('k, 'v) ledger \<Rightarrow>
   ('k, 'v) ledger \<times> ('k, 'v) effect list \<times> ('k, 'v) jsval completion" where
  "get_all s = try_catch s (get_all_try s)"

text \<open>
  What the spec says of the result of \<^verbatim>\<open>get_all\<close>, on the payloads \<open>es\<close> of the chain
  (oldest first): for each distinct key, the data of the block appended last with that
  key; the keys in the order of their first occurrence when the chain is read from its
  newest block.
\<close>

definition latest_per_key :: "('k, 'v) entry list \<Rightarrow> ('k, 'v) entry list" where
  "latest_per_key es = map (\<lambda>k. last [d \<leftarrow> es. key d = k]) (rev (remdups (map key es)))"

section \<open>The handlers of the constructor\<close>

subsection \<open>The closures\<close>

text \<open>
  Modelled from the spec: \<^verbatim>\<open>this.chain.length\<close>, a property of the class \<^verbatim>\<open>Chain\<close>,
  which is not in the sources. The spec gives the length of a chain as its block count.
\<close>

definition chain_length :: "('k, 'v) ledger \<Rightarrow> nat" where
  "chain_length s = length (blocks s)"

text \<open>
  \<open>compare\<close> is \<^verbatim>\<open>this.chain.compare\<close> and \<open>mapBlocks\<close> is \<^verbatim>\<open>this.chain.mapBlocks\<close>,
  both applied to the blocks held.
\<close>

definition requestMissingBlocks ::
  "(('k, 'v) block list \<Rightarrow> block_map \<Rightarrow> block_id list) \<Rightarrow> ('k, 'v) ledger \<Rightarrow> block_map \<Rightarrow>
   ('k, 'v) ledger \<times> ('k, 'v) effect list" where
  "requestMissingBlocks compare s block_map =
     (let s' = s\<lparr>missing_blocks := compare (blocks s) block_map\<rparr>
      in (s', map (\<lambda>block_id. Send (Channel ''request_block'') (Block_id_msg block_id))
                (missing_blocks s')))"

definition respondBlockMap ::
  "(('k, 'v) block list \<Rightarrow> block_map) \<Rightarrow> ('k, 'v) ledger \<Rightarrow> peer_id \<Rightarrow> ('k, 'v) effect list" where
  "respondBlockMap mapBlocks s ident = [Send (To ident) (Block_map_msg (mapBlocks (blocks s)))]"

definition requestBlockMap :: "peer_id \<Rightarrow> ('k, 'v) effect list" where
  "requestBlockMap ident = [Send (To ident) (Request_msg ''block_map'')]"

definition addChainLength :: "('k, 'v) ledger \<Rightarrow> peer_id \<Rightarrow> nat \<Rightarrow> ('k, 'v) ledger" where
  "addChainLength s ident len =
     s\<lparr>chain_lengths := chain_lengths s @ [\<lparr> report_id = ident, report_length = len \<rparr>]\<rparr>"

definition selectChain :: "('k, 'v) ledger \<Rightarrow> chain_report \<Rightarrow> ('k, 'v) effect list" where
  "selectChain s chain =
     (if report_length chain > chain_length s then requestBlockMap (report_id chain) else [])"

subsection \<open>The handler of a new connection\<close>

text \<open>The node sends the number of its blocks to the peer that has connected.\<close>

definition on_connect :: "('k, 'v) ledger \<Rightarrow> peer_id \<Rightarrow> ('k, 'v) effect list" where
  "on_connect s ident = [Send (To ident) (Length_msg (length (blocks s)))]"

subsection \<open>The handler of the messages sent to this node\<close>

text \<open>
  The message \<^verbatim>\<open>data\<close> of the handler registered with \<^verbatim>\<open>{ from: "" }\<close>: an object with
  the properties the handler reads (\<open>None\<close> for one that is absent), \<^verbatim>\<open>null\<close>, or a value
  whose \<^verbatim>\<open>typeof\<close> is not \<^verbatim>\<open>'object'\<close>.
\<close>

record message =
  msg_length :: "nat option"
  msg_request :: "string option"
  msg_block_map :: "block_map option"

datatype jsdata = Null | Object message | Primitive

text \<open>
  The first statement of the handler. \<^verbatim>\<open>typeof null\<close> is \<^verbatim>\<open>'object'\<close>, and reading
  \<^verbatim>\<open>null.length\<close> raises. A length of 0 is falsy, so it is not recorded.
\<close>

definition dispatch ::
  "(('k, 'v) block list \<Rightarrow> block_map) \<Rightarrow> (('k, 'v) block list \<Rightarrow> block_map \<Rightarrow> block_id list) \<Rightarrow>
   ('k, 'v) ledger \<Rightarrow> jsdata \<Rightarrow> peer_id \<Rightarrow>
   error + ('k, 'v) ledger \<times> ('k, 'v) effect list" where
  "dispatch mapBlocks compare s d ident =
     (case d of
        Primitive \<Rightarrow> Inr (s, [])
      | Null \<Rightarrow> Inl TypeError
      | Object m \<Rightarrow>
          (case msg_length m of
             Some (Suc n) \<Rightarrow> Inr (addChainLength s ident (Suc n), [])
           | _ \<Rightarrow>
               if msg_request m = Some ''block_map'' then Inr (s, respondBlockMap mapBlocks s ident)
               else (case msg_block_map m of
                       Some block_map \<Rightarrow> Inr (requestMissingBlocks compare s block_map)
                     | None \<Rightarrow> Inr (s, []))))"

text \<open>
  The whole handler. The second statement reads \<^verbatim>\<open>this.core.getPeers()\<close>: with no
  property \<^verbatim>\<open>core\<close> on the Ledger this is a call on undefined, a TypeError, raised after
  the first statement has run.
\<close>

definition on_message ::
  "(('k, 'v) block list \<Rightarrow> block_map) \<Rightarrow> (('k, 'v) block list \<Rightarrow> block_map \<Rightarrow> block_id list) \<Rightarrow>
   ('k, 'v) ledger \<Rightarrow> jsdata \<Rightarrow> peer_id \<Rightarrow>
   ('k, 'v) ledger \<times> ('k, 'v) effect list \<times> unit completion" where
  "on_message mapBlocks compare s d ident =
     (case dispatch mapBlocks compare s d ident of
        Inl e \<Rightarrow> (s, [], Throws e)
      | Inr (s', effs) \<Rightarrow>
          (case core s' of
             None \<Rightarrow> (s', effs, Throws TypeError)
           | Some peers \<Rightarrow>
               if length (chain_lengths s') \<ge> length peers then
                 (s', effs @ concat (map (selectChain s') (chain_lengths s')), Returns ())
               else (s', effs, Returns ())))"

text \<open>
  The messages of a list, delivered one after the other. An exception ends the delivery
  that raised it; the transport is taken to go on with the next message.
\<close>

fun deliver_messages ::
  "(('k, 'v) block list \<Rightarrow> block_map) \<Rightarrow> (('k, 'v) block list \<Rightarrow> block_map \<Rightarrow> block_id list) \<Rightarrow>
   ('k, 'v) ledger \<Rightarrow> (jsdata \<times> peer_id) list \<Rightarrow>
   ('k, 'v) ledger \<times> ('k, 'v) effect list \<times> unit completion list" where
  "deliver_messages mapBlocks compare s [] = (s, [], [])"
| "deliver_messages mapBlocks compare s ((d, ident) # ms) =
     (case on_message mapBlocks compare s d ident of
        (s', effs, r) \<Rightarrow>
          (case deliver_messages mapBlocks compare s' ms of
             (s'', effs', rs) \<Rightarrow> (s'', effs @ effs', r # rs)))"

subsection \<open>The handler of the channel requested_block\<close>

text \<open>
  \<open>add\<close> is \<^verbatim>\<open>this.chain.add\<close> and \<open>sortBlocks\<close> is \<^verbatim>\<open>this.chain.sortBlocks\<close>, on the
  blocks held.
\<close>

definition on_requested_block ::
  "(('k, 'v) block list \<Rightarrow> ('k, 'v) block \<Rightarrow> ('k, 'v) block list) \<Rightarrow>
   (('k, 'v) block list \<Rightarrow> ('k, 'v) block list) \<Rightarrow>
   ('k, 'v) ledger \<Rightarrow> ('k, 'v) block \<Rightarrow> string \<Rightarrow> ('k, 'v) ledger" where
  "on_requested_block add sortBlocks s block nm =
     (let s1 = (if nm \<noteq> name s
                then s\<lparr>received_blocks := received_blocks s @ [block],
                       blocks := add (blocks s) block\<rparr>
                else s)
      in if length (missing_blocks s1) = length (received_blocks s1)
         then s1\<lparr>blocks := sortBlocks (blocks s1), missing_blocks := [], received_blocks := []\<rparr>
         else s1)"

text \<open>Blocks delivered on the channel one after the other, each with the name of its sender.\<close>

fun deliver_blocks ::
  "(('k, 'v) block list \<Rightarrow> ('k, 'v) block \<Rightarrow> ('k, 'v) block list) \<Rightarrow>
   (('k, 'v) block list \<Rightarrow> ('k, 'v) block list) \<Rightarrow>
   ('k, 'v) ledger \<Rightarrow> (('k, 'v) block \<times> string) list \<Rightarrow> ('k, 'v) ledger" where
  "deliver_blocks add sortBlocks s [] = s"
| "deliver_blocks add sortBlocks s ((block, nm) # ms) =
     deliver_blocks add sortBlocks (on_requested_block add sortBlocks s block nm) ms"

text \<open>
  The blocks of such a list that the handler takes in: those not sent by the node
  itself, whose name is \<open>self\<close>.
\<close>

definition peer_blocks :: "string \<Rightarrow> (('k, 'v) block \<times> string) list \<Rightarrow> ('k, 'v) block list" where
  "peer_blocks self msgs = map fst [m \<leftarrow> msgs. snd m \<noteq> self]"


section \<open>The block store, as the spec describes it\<close>

text \<open>
  The class \<^verbatim>\<open>Chain\<close> is not in the sources. The functions above take its methods as
  parameters; the definitions of this section are instances of these parameters, written
  from the contract of the block store in the spec, for use where a concrete store is
  needed.
\<close>

text \<open>
  Modelled from the spec: \<^verbatim>\<open>Chain.put\<close>, the append of the block store, which is not
  in the sources. The spec has it create a block that holds the payload, store it at the
  end of the chain and return it; \<open>new_id\<close> stands for the way the store chooses the
  identifier of the new block.
\<close>

definition chain_put ::
  "(('k, 'v) block list \<Rightarrow> block_id) \<Rightarrow> ('k, 'v) entry \<Rightarrow> ('k, 'v) block list \<Rightarrow>
   (error + ('k, 'v) block) \<times> ('k, 'v) block list" where
  "chain_put new_id d bs =
     (let b = \<lparr> block_id = new_id bs, data = Some d \<rparr> in (Inr b, bs @ [b]))"

text \<open>An identifier for the new block: one character longer with each block held.\<close>

definition counting_id :: "('k, 'v) block list \<Rightarrow> block_id" where
  "counting_id bs = replicate (Suc (length bs)) CHR ''#''"

text \<open>A store whose append raises.\<close>

definition failing_put ::
  "('k, 'v) entry \<Rightarrow> ('k, 'v) block list \<Rightarrow> (error + ('k, 'v) block) \<times> ('k, 'v) block list" where
  "failing_put d bs = (Inl (StoreError ''append failed''), bs)"

text \<open>
  Modelled from the spec: \<^verbatim>\<open>Chain.add\<close>, which is not in the sources. The spec has it
  take in a block of a peer, and do nothing when a block with this identifier is held.
\<close>

definition chain_add :: "('k, 'v) block list \<Rightarrow> ('k, 'v) block \<Rightarrow> ('k, 'v) block list" where
  "chain_add bs b = (if block_id b \<in> block_id ` set bs then bs else bs @ [b])"

text \<open>
  Modelled from the spec: \<^verbatim>\<open>Chain.compare\<close>, which is not in the sources. The spec has it
  return the identifiers that the peer's block map holds and the local chain does not.
\<close>

definition chain_compare :: "('k, 'v) block list \<Rightarrow> block_map \<Rightarrow> block_id list" where
  "chain_compare bs block_map = [i \<leftarrow> block_map. i \<notin> block_id ` set bs]"

text \<open>
  Modelled from the spec: \<^verbatim>\<open>Chain.sortBlocks\<close>, which is not in the sources. The spec
  only says that the order is canonical and deterministic; this instance orders the blocks
  by the length of their identifiers, the order in which \<open>counting_id\<close> hands them out.
\<close>

definition chain_sortBlocks :: "('k, 'v) block list \<Rightarrow> ('k, 'v) block list" where
  "chain_sortBlocks bs = sort_key (\<lambda>b. length (block_id b)) bs"

section \<open>States and arrivals used as examples\<close>

text \<open>A node just constructed, with an empty chain.\<close>

definition node1 :: "(string, nat) ledger" where
  "node1 = Ledger (Some ''node1'') ''uuid'' []"

text \<open>
  The same node after \<^verbatim>\<open>get("a")\<close> and its retries, with no block for \<^verbatim>\<open>"a"\<close>
  anywhere: the budget is spent.
\<close>

definition spent :: "(string, nat) ledger" where
  "spent = fst (get_chain undisturbed 0 node1 ''a'')"

text \<open>The block \<open>b\<close> arrives while the first timer of a call of \<^verbatim>\<open>get\<close> is pending.\<close>

definition arrival :: "('k, 'v) block \<Rightarrow> nat \<Rightarrow> ('k, 'v) block list \<Rightarrow> ('k, 'v) block list" where
  "arrival b n bs = (if n = 0 then bs @ [b] else bs)"

text \<open>A node whose chain holds a block without data, received after a block for \<^verbatim>\<open>"x"\<close>.\<close>

definition broken :: "(string, nat) ledger" where
  "broken = node1\<lparr>blocks := [\<lparr> block_id = ''b1'', data = Some \<lparr> key = ''x'', val = 1 \<rparr> \<rparr>,
                               \<lparr> block_id = ''b2'', data = None \<rparr>]\<rparr>"

text \<open>The node after \<^verbatim>\<open>put("x", 1)\<close>, \<^verbatim>\<open>put("y", 9)\<close>, \<^verbatim>\<open>put("x", 2)\<close>.\<close>

definition three_puts :: "(string, nat) ledger" where
  "three_puts = fst (put_each (chain_put counting_id) node1 [(''x'', 1), (''y'', 9), (''x'', 2)])"

text \<open>
  The node after it has received a block map with two identifiers, both missing, and
  the two blocks that a peer holds under them.
\<close>

definition behind :: "(string, nat) ledger" where
  "behind = fst (requestMissingBlocks chain_compare node1 [''#'', ''##''])"

definition block1 :: "(string, nat) block" where
  "block1 = \<lparr> block_id = ''#'', data = Some \<lparr> key = ''x'', val = 1 \<rparr> \<rparr>"

definition block2 :: "(string, nat) block" where
  "block2 = \<lparr> block_id = ''##'', data = Some \<lparr> key = ''x'', val = 2 \<rparr> \<rparr>"

text \<open>The message \<^verbatim>\<open>{ length: n }\<close>, and a node that holds four blocks.\<close>

definition length_report :: "nat \<Rightarrow> jsdata" where
  "length_report n = Object \<lparr> msg_length = Some n, msg_request = None, msg_block_map = None \<rparr>"

text \<open>The message \<^verbatim>\<open>{ block_map: m }\<close>.\<close>

definition block_map_message :: "block_map \<Rightarrow> jsdata" where
  "block_map_message m = Object \<lparr> msg_length = None, msg_request = None, msg_block_map = Some m \<rparr>"


definition local4 :: "(string, nat) ledger" where
  "local4 = fst (put_each (chain_put counting_id) node1
                   [(''a'', 1), (''b'', 2), (''c'', 3), (''d'', 4)])"

section \<open>The scan of get and its three outcomes\<close>

lemma find_key_miss: "find_key k (rev bs) = Inr None \<longleftrightarrow> absent k bs"
proof -
  have "find_key k xs = Inr None \<longleftrightarrow> absent k xs" for xs :: "('a, 'b) block list"
    by (induction xs) (auto simp: absent_def split: option.splits)
  from this [of "rev bs"] show ?thesis
    by (simp add: absent_def list_all_iff)
qed

lemma get_miss_budget:
  assumes "absent k (blocks s)" and "tries s < retries s"
  shows "get s k = (s\<lparr>tries := tries s + 1\<rparr>,
           [Send (Channel ''request'') (Key_msg k), Set_timeout ((tries s + 1) * 500) k],
           Returns Undefined)"
  using assms by (simp add: get_def get_try_def try_catch_def find_key_miss [symmetric])

lemma get_miss_exhausted:
  assumes "absent k (blocks s)" and "\<not> tries s < retries s"
  shows "get s k = (s, [], Returns (Str ''unable to find.''))"
  using assms by (simp add: get_def get_try_def try_catch_def find_key_miss [symmetric])

text \<open>
  Every call of a chain of retries but the last returns undefined: a call that sets a
  timer falls off the end of \<^verbatim>\<open>get\<close>.
\<close>

lemma get_chain_shape:
  "\<exists>s' effs j r. get_chain between n s k = (s', effs, replicate j (Returns Undefined) @ [r])"
proof (induction between n s k rule: get_chain.induct)
  case (1 between n s k)
  obtain s' effs r where g: "get s k = (s', effs, r)"
    by (cases "get s k") auto
  show ?case
  proof (cases "timeouts effs")
    case Nil
    then have "get_chain between n s k = (s', effs, replicate 0 (Returns Undefined) @ [r])"
      by (subst get_chain.simps) (simp add: g)
    then show ?thesis by blast
  next
    case (Cons k' ks)
    from g Cons have r: "r = Returns Undefined"
      by (auto simp: get_def get_try_def try_catch_def Let_def
          split: sum.splits option.splits if_splits)
    from "1.IH" [OF g [symmetric] refl Cons] obtain s'' effs' j r' where
      "get_chain between (Suc n) (s'\<lparr>blocks := between n (blocks s')\<rparr>) k'
         = (s'', effs', replicate j (Returns Undefined) @ [r'])"
      by blast
    then have "get_chain between n s k
         = (s'', effs @ effs', replicate (Suc j) (Returns Undefined) @ [r'])"
      by (subst get_chain.simps) (simp add: g Cons r)
    then show ?thesis by blast
  qed
qed

text \<open>
  C9. When the key is absent from the chain and the budget is not exhausted
  (\<open>tries < retries\<close>), the call \<^verbatim>\<open>get(k)\<close> returns undefined to its caller, having counted
  the try, sent one key request and set one timer. In the chain of retries that follows,
  whatever arrives in between, the caller's value is that undefined; the one value that
  may be a data or the sentinel is the last, and it goes to a timer.
\<close>

theorem get_miss_returns_undefined:
  assumes "absent k (blocks s)" and "tries s < retries s"
  shows "get s k =
           (s\<lparr>tries := tries s + 1\<rparr>,
            [Send (Channel ''request'') (Key_msg k), Set_timeout ((tries s + 1) * 500) k],
            Returns Undefined)
         \<and> (\<exists>s' effs j r. get_chain between n s k =
               (s', effs, Returns Undefined # replicate j (Returns Undefined) @ [r]))"
proof -
  let ?s' = "s\<lparr>tries := tries s + 1\<rparr>"
  have g: "get s k = (?s', [Send (Channel ''request'') (Key_msg k),
                           Set_timeout ((tries s + 1) * 500) k], Returns Undefined)"
    using assms by (rule get_miss_budget)
  obtain s'' effs' j r where
    "get_chain between (Suc n) (?s'\<lparr>blocks := between n (blocks ?s')\<rparr>) k
       = (s'', effs', replicate j (Returns Undefined) @ [r])"
    using get_chain_shape [of between "Suc n" "?s'\<lparr>blocks := between n (blocks ?s')\<rparr>" k]
    by (elim exE)
  then have "get_chain between n s k =
      ( s'', [Send (Channel ''request'') (Key_msg k), Set_timeout ((tries s + 1) * 500) k] @ effs',
        Returns Undefined # replicate j (Returns Undefined) @ [r])"
    by (subst get_chain.simps) (simp add: g)
  with g show ?thesis by blast
qed

text \<open>
  On a fresh node: \<^verbatim>\<open>get("x")\<close> returns undefined, and when a block for \<^verbatim>\<open>"x"\<close>
  arrives before the timer fires, the data goes to the timer.
\<close>

theorem get_miss_returns_undefined_witness:
  "absent ''x'' (blocks node1) \<and> tries node1 < retries node1
   \<and> get node1 ''x'' =
        (node1\<lparr>tries := 1\<rparr>,
         [Send (Channel ''request'') (Key_msg ''x''), Set_timeout 500 ''x''],
         Returns Undefined)
   \<and> get_chain (arrival \<lparr> block_id = ''b1'', data = Some \<lparr> key = ''x'', val = 7 \<rparr> \<rparr>) 0 node1 ''x'' =
        (node1\<lparr>tries := 0, blocks := [\<lparr> block_id = ''b1'', data = Some \<lparr> key = ''x'', val = 7 \<rparr> \<rparr>]\<rparr>,
         [Send (Channel ''request'') (Key_msg ''x''), Set_timeout 500 ''x''],
         [Returns Undefined, Returns (Data \<lparr> key = ''x'', val = 7 \<rparr>)])"
proof -
  have a: "absent ''x'' (blocks node1)" and t: "tries node1 < retries node1"
    by (simp_all add: node1_def Ledger_def absent_def)
  have c: "get_chain (arrival \<lparr> block_id = ''b1'', data = Some \<lparr> key = ''x'', val = 7 \<rparr> \<rparr>) 0 node1 ''x'' =
        (node1\<lparr>tries := 0, blocks := [\<lparr> block_id = ''b1'', data = Some \<lparr> key = ''x'', val = 7 \<rparr> \<rparr>]\<rparr>,
         [Send (Channel ''request'') (Key_msg ''x''), Set_timeout 500 ''x''],
         [Returns Undefined, Returns (Data \<lparr> key = ''x'', val = 7 \<rparr>)])"
    by (simp add: get_chain.simps get_def get_try_def try_catch_def node1_def Ledger_def arrival_def)
  from get_miss_returns_undefined [OF a t] a t c show ?thesis
    by (simp add: node1_def Ledger_def)
qed

section \<open>The retries of get\<close>

lemma get_chain_absent:
  fixes s :: "('k, 'v) ledger"
  assumes "\<And>i bs. absent k bs \<Longrightarrow> absent k (between i bs)"
  shows "absent k (blocks s) \<Longrightarrow>
    \<exists>s'. get_chain between n s k =
      (s',
       concat (map (\<lambda>i. [Send (Channel ''request'') (Key_msg k), Set_timeout (i * 500) k])
                   [tries s + 1 ..< retries s + 1]),
       replicate (retries s - tries s) (Returns Undefined) @ [Returns (Str ''unable to find.'')])
      \<and> tries s' = max (tries s) (retries s) \<and> retries s' = retries s"
proof (induction "retries s - tries s" arbitrary: s n)
  case 0
  then have "\<not> tries s < retries s" by simp
  with 0 show ?case
    by (subst get_chain.simps) (simp add: get_miss_exhausted max_def)
next
  case (Suc m)
  then have lt: "tries s < retries s" by simp
  let ?s' = "s\<lparr>tries := tries s + 1, blocks := between n (blocks s)\<rparr>"
  have m: "m = retries ?s' - tries ?s'" using Suc.hyps by simp
  have a: "absent k (blocks ?s')" using assms Suc.prems by simp
  have upt: "[Suc (tries s) ..< Suc (retries s)] = Suc (tries s) # [Suc (Suc (tries s)) ..< Suc (retries s)]"
    using lt by (simp add: upt_conv_Cons)
  have rep: "retries s - tries s = Suc (retries s - Suc (tries s))" using lt by simp
  from Suc.hyps(1) [OF m a, of "Suc n"] show ?case
    using lt
    apply (elim exE conjE)
    apply (subst get_chain.simps)
    apply (simp add: get_miss_budget [OF Suc.prems lt] upt rep max_def del: upt_Suc)
    done
qed

lemma key_requests_retries:
  "key_requests (concat (map (\<lambda>i. [Send (Channel ''request'') (Key_msg k), Set_timeout (i * 500) k]) is))
     = replicate (length is) k"
  by (induction "is") simp_all

lemma delays_retries:
  "delays (concat (map (\<lambda>i. [Send (Channel ''request'') (Key_msg k), Set_timeout (i * 500) k]) is))
     = map (\<lambda>i. i * 500) is"
  by (induction "is") simp_all

lemma delays_increase: "sorted_wrt (<) (map (\<lambda>i. i * 500) [a ..< b :: nat])"
  by (simp add: sorted_wrt_map)

text \<open>
  C3, as amended. For a key absent from the chain at every attempt, and with no other
  call of \<^verbatim>\<open>get\<close> in between, the chain of retries of \<^verbatim>\<open>get(k)\<close> sends
  \<open>retries - tries\<close> key requests, where \<open>tries\<close> is the counter of the instance at
  the call: 3 on a node whose counter is 0, none when the budget is spent. Each request
  is followed by a timer of \<open>i * 500\<close> ms, \<open>i\<close> the value of the counter after the
  request, so the delays increase strictly; every call but the last returns undefined,
  the last returns the sentinel, and the counter ends at \<open>retries\<close>.
\<close>

theorem get_retries_bounded:
  assumes "absent k (blocks s)" and "\<forall>i bs. absent k bs \<longrightarrow> absent k (between i bs)"
  shows "\<exists>s' effs. get_chain between n s k =
           (s', effs,
            replicate (retries s - tries s) (Returns Undefined) @ [Returns (Str ''unable to find.'')])
         \<and> effs = concat (map (\<lambda>i. [Send (Channel ''request'') (Key_msg k), Set_timeout (i * 500) k])
                              [tries s + 1 ..< retries s + 1])
         \<and> key_requests effs = replicate (retries s - tries s) k
         \<and> delays effs = map (\<lambda>i. i * 500) [tries s + 1 ..< retries s + 1]
         \<and> sorted_wrt (<) (delays effs)
         \<and> tries s' = max (tries s) (retries s) \<and> retries s' = retries s"
proof -
  from assms(2) have "absent k bs \<Longrightarrow> absent k (between i bs)" for i bs
    by simp
  from get_chain_absent [of k between s n, OF this assms(1)] obtain s' where
    c: "get_chain between n s k =
      (s',
       concat (map (\<lambda>i. [Send (Channel ''request'') (Key_msg k), Set_timeout (i * 500) k])
                   [tries s + 1 ..< retries s + 1]),
       replicate (retries s - tries s) (Returns Undefined) @ [Returns (Str ''unable to find.'')])"
    and t: "tries s' = max (tries s) (retries s)" and r: "retries s' = retries s"
    by blast
  show ?thesis
    unfolding c using t r
    by (simp add: key_requests_retries delays_retries delays_increase del: upt_Suc)
qed

text \<open>
  On a fresh node (counter 0, budget 3): three requests, timers of 500, 1000 and 1500 ms,
  then the sentinel.
\<close>

theorem get_retries_bounded_witness:
  "absent ''b'' (blocks node1)
   \<and> tries node1 = 0 \<and> retries node1 = 3
   \<and> get_chain undisturbed 0 node1 ''b'' =
        (node1\<lparr>tries := 3\<rparr>,
         [Send (Channel ''request'') (Key_msg ''b''), Set_timeout 500 ''b'',
          Send (Channel ''request'') (Key_msg ''b''), Set_timeout 1000 ''b'',
          Send (Channel ''request'') (Key_msg ''b''), Set_timeout 1500 ''b''],
         [Returns Undefined, Returns Undefined, Returns Undefined,
          Returns (Str ''unable to find.'')])"
proof -
  have a: "absent ''b'' (blocks node1)"
    by (simp add: node1_def Ledger_def absent_def)
  have u: "\<forall>i (bs :: (string, nat) block list). absent ''b'' bs \<longrightarrow> absent ''b'' (undisturbed i bs)"
    by (simp add: undisturbed_def)
  have n: "tries node1 = 0" "retries node1 = 3"
    by (simp_all add: node1_def Ledger_def)
  have c: "get_chain undisturbed 0 node1 ''b'' =
        (node1\<lparr>tries := 3\<rparr>,
         [Send (Channel ''request'') (Key_msg ''b''), Set_timeout 500 ''b'',
          Send (Channel ''request'') (Key_msg ''b''), Set_timeout 1000 ''b'',
          Send (Channel ''request'') (Key_msg ''b''), Set_timeout 1500 ''b''],
         [Returns Undefined, Returns Undefined, Returns Undefined,
          Returns (Str ''unable to find.'')])"
    by (simp add: get_chain.simps get_def get_try_def try_catch_def node1_def Ledger_def
        undisturbed_def)
  from get_retries_bounded [of "''b''" node1 undisturbed 0, OF a u] a n c show ?thesis
    by (elim exE conjE) (intro conjI; assumption)
qed

text \<open>
  C3 as stated fails on a node whose budget is spent by an earlier \<^verbatim>\<open>get\<close>: the key
  \<^verbatim>\<open>"b"\<close> is absent, the budget is 3, and \<^verbatim>\<open>get("b")\<close> sends no request at all.
\<close>

theorem get_three_requests_counterexample:
  "absent ''b'' (blocks spent) \<and> retries spent = 3
   \<and> length (key_requests (fst (snd (get_chain undisturbed 0 spent ''b'')))) \<noteq> 3
   \<and> get_chain undisturbed 0 spent ''b'' = (spent, [], [Returns (Str ''unable to find.'')])"
proof -
  have s: "spent = node1\<lparr>tries := 3\<rparr>"
    by (simp add: spent_def get_chain.simps get_def get_try_def try_catch_def node1_def
        Ledger_def undisturbed_def)
  show ?thesis
    by (simp add: s get_chain.simps get_def get_try_def try_catch_def node1_def Ledger_def
        undisturbed_def absent_def)
qed

section \<open>The counter of tries\<close>

lemma get_each_exhausted:
  assumes "retries s \<le> tries s" and "list_all (\<lambda>k. absent k (blocks s)) ks"
  shows "get_each s ks = (s, [], replicate (length ks) (Returns (Str ''unable to find.'')))"
  using assms by (induction ks) (simp_all add: get_miss_exhausted)


lemma find_key_hit:
  "find_key k bs = Inr (Some b) \<Longrightarrow> \<exists>v. data b = Some \<lparr> key = k, val = v \<rparr>"
proof (induction bs)
  case Nil
  then show ?case by simp
next
  case (Cons a bs)
  show ?case
  proof (cases "data a")
    case None
    with Cons.prems show ?thesis by simp
  next
    case (Some d)
    show ?thesis
    proof (cases "key d = k")
      case True
      with Some Cons.prems have "b = a" by simp
      moreover from True have "d = \<lparr> key = k, val = val d \<rparr>" by simp
      ultimately show ?thesis using Some by metis
    next
      case False
      with Some Cons show ?thesis by simp
    qed
  qed
qed

lemma get_hit:
  assumes "find_key k (rev (blocks s)) = Inr (Some b)"
  shows "\<exists>v. data b = Some \<lparr> key = k, val = v \<rparr>
             \<and> get s k = (s\<lparr>tries := 0\<rparr>, [], Returns (Data \<lparr> key = k, val = v \<rparr>))"
proof -
  from find_key_hit [OF assms] obtain v where "data b = Some \<lparr> key = k, val = v \<rparr>" ..
  with assms show ?thesis
    by (simp add: get_def get_try_def try_catch_def)
qed

text \<open>Only \<^verbatim>\<open>get\<close> writes the counter: the other methods and the handlers leave it as it is.\<close>

lemma tries_kept:
  "tries (fst (put cput s k v)) = tries s"
  "tries (fst (get_history s k)) = tries s"
  "tries (fst (get_all s)) = tries s"
  "tries (fst (on_message mapBlocks compare s d ident)) = tries s"
  "tries (on_requested_block add sortBlocks s b nm) = tries s"
  by (auto simp: put_def get_history_def get_history_try_def get_all_def get_all_try_def
      try_catch_def on_message_def dispatch_def addChainLength_def requestMissingBlocks_def
      on_requested_block_def Let_def
      split: prod.splits sum.splits option.splits jsdata.splits nat.splits)

lemma get_tries_decrease:
  assumes "tries (fst (get s k)) < tries s"
  shows "\<exists>b. find_key k (rev (blocks s)) = Inr (Some b) \<and> tries (fst (get s k)) = 0"
  using assms
  by (auto simp: get_def get_try_def try_catch_def Let_def split: sum.splits option.splits if_splits)

text \<open>
  C8. The counter of tries belongs to the instance, and a call of \<^verbatim>\<open>get\<close> lowers it
  only on a hit, to 0. So once the budget is spent (\<open>retries \<le> tries\<close>), calls of
  \<^verbatim>\<open>get\<close> for absent keys, one after the other, each return the sentinel at once: no
  request, no timer, and the state is left as it was.
\<close>

theorem retry_budget_sticky:
  "(retries s \<le> tries s \<and> list_all (\<lambda>k. absent k (blocks s)) ks \<longrightarrow>
      get_each s ks = (s, [], replicate (length ks) (Returns (Str ''unable to find.''))))
   \<and> (tries (fst (get s k)) < tries s \<longrightarrow>
        (\<exists>b. find_key k (rev (blocks s)) = Inr (Some b) \<and> tries (fst (get s k)) = 0))"
  using get_each_exhausted [of s ks] get_tries_decrease [of s k] by blast

text \<open>
  The budget of \<open>spent\<close> was used up by \<^verbatim>\<open>get("a")\<close>; three more calls for absent keys
  change nothing, and a hit brings the counter back to 0.
\<close>

theorem retry_budget_sticky_witness:
  "spent = fst (get_chain undisturbed 0 node1 ''a'') \<and> retries spent \<le> tries spent
   \<and> list_all (\<lambda>k. absent k (blocks spent)) [''b'', ''c'', ''b'']
   \<and> get_each spent [''b'', ''c'', ''b''] =
       (spent, [], [Returns (Str ''unable to find.''), Returns (Str ''unable to find.''),
                    Returns (Str ''unable to find.'')])
   \<and> tries (fst (get (spent\<lparr>blocks := [\<lparr> block_id = ''b1'', data = Some \<lparr> key = ''x'', val = 7 \<rparr> \<rparr>]\<rparr>) ''x'')) < 3
   \<and> tries (fst (get (spent\<lparr>blocks := [\<lparr> block_id = ''b1'', data = Some \<lparr> key = ''x'', val = 7 \<rparr> \<rparr>]\<rparr>) ''x'')) = 0"
proof -
  have s: "spent = node1\<lparr>tries := 3\<rparr>"
    by (simp add: spent_def get_chain.simps get_def get_try_def try_catch_def node1_def
        Ledger_def undisturbed_def)
  have r: "retries spent \<le> tries spent"
    by (simp add: s node1_def Ledger_def)
  have a: "list_all (\<lambda>k. absent k (blocks spent)) [''b'', ''c'', ''b'']"
    by (simp add: s node1_def Ledger_def absent_def)
  have t: "tries spent = 3"
    by (simp add: s)
  have h: "tries (fst (get (spent\<lparr>blocks := [\<lparr> block_id = ''b1'', data = Some \<lparr> key = ''x'', val = 7 \<rparr> \<rparr>]\<rparr>) ''x'')) < 3"
    by (simp add: s get_def get_try_def try_catch_def node1_def Ledger_def)
  have d: "spent = fst (get_chain undisturbed 0 node1 ''a'')"
    by (rule spent_def)
  note th1 = retry_budget_sticky [of spent "[''b'', ''c'', ''b'']" "''x''"]
  note th2 = retry_budget_sticky [of
      "spent\<lparr>blocks := [\<lparr> block_id = ''b1'', data = Some \<lparr> key = ''x'', val = 7 \<rparr> \<rparr>]\<rparr>"
      "[]" "''x''"]
  from th1 r a have "get_each spent [''b'', ''c'', ''b''] =
       (spent, [], [Returns (Str ''unable to find.''), Returns (Str ''unable to find.''),
                    Returns (Str ''unable to find.'')])"
    by simp
  moreover from th2 h
  have "tries (fst (get (spent\<lparr>blocks := [\<lparr> block_id = ''b1'', data = Some \<lparr> key = ''x'', val = 7 \<rparr> \<rparr>]\<rparr>) ''x'')) = 0"
    by (simp add: t)
  ultimately have "get_each spent [''b'', ''c'', ''b''] =
       (spent, [], [Returns (Str ''unable to find.''), Returns (Str ''unable to find.''),
                    Returns (Str ''unable to find.'')])
   \<and> tries (fst (get (spent\<lparr>blocks := [\<lparr> block_id = ''b1'', data = Some \<lparr> key = ''x'', val = 7 \<rparr> \<rparr>]\<rparr>) ''x'')) = 0"
    by (rule conjI)
  with d r a h show ?thesis
    by blast
qed

section \<open>put\<close>

text \<open>
  C10. \<^verbatim>\<open>put\<close> has no exception handler: when \<^verbatim>\<open>this.chain.put\<close> raises, the
  exception reaches the caller of \<^verbatim>\<open>put\<close>, no block is broadcast, and the error log is
  as it was.
\<close>

theorem put_unguarded:
  assumes "cput \<lparr> key = k, val = v \<rparr> (blocks s) = (Inl e, bs)"
  shows "put cput s k v = (s\<lparr>blocks := bs\<rparr>, [], Throws e)
         \<and> errors (fst (put cput s k v)) = errors s"
  using assms by (simp add: put_def)

theorem put_unguarded_witness:
  "failing_put \<lparr> key = ''x'', val = 1 \<rparr> (blocks node1) = (Inl (StoreError ''append failed''), [])
   \<and> put failing_put node1 ''x'' 1 = (node1, [], Throws (StoreError ''append failed''))
   \<and> errors (fst (put failing_put node1 ''x'' 1)) = []"
proof -
  have f: "failing_put \<lparr> key = ''x'', val = 1::nat \<rparr> (blocks node1)
             = (Inl (StoreError ''append failed''), [])"
    by (simp add: failing_put_def node1_def Ledger_def)
  from put_unguarded [of failing_put "''x''" 1 node1 "StoreError ''append failed''" "[]", OF f] f
  show ?thesis
    by (simp add: node1_def Ledger_def)
qed

text \<open>With a store whose append does append, \<^verbatim>\<open>put\<close> adds one block that holds the pair.\<close>

lemma put_appends:
  assumes "appends cput"
  shows "\<exists>b. put cput s k v =
            (s\<lparr>blocks := blocks s @ [b]\<rparr>, [Send (Channel ''block'') (Block_msg b)], Returns b)
          \<and> data b = Some \<lparr> key = k, val = v \<rparr>"
proof -
  from assms obtain b where "cput \<lparr> key = k, val = v \<rparr> (blocks s) = (Inr b, blocks s @ [b])"
    and "data b = Some \<lparr> key = k, val = v \<rparr>"
    unfolding appends_def by blast
  then show ?thesis by (simp add: put_def)
qed

lemma put_each_appends:
  assumes "appends cput"
  shows "\<exists>bs effs rs. put_each cput s kvs = (s\<lparr>blocks := blocks s @ bs\<rparr>, effs, rs)
          \<and> map data bs = map (\<lambda>(k, v). Some \<lparr> key = k, val = v \<rparr>) kvs"
proof (induction kvs arbitrary: s)
  case Nil
  then show ?case by simp
next
  case (Cons kv kvs)
  obtain k v where kv: "kv = (k, v)" by (cases kv)
  from put_appends [OF assms, of s k v] obtain b where
    p: "put cput s k v =
          (s\<lparr>blocks := blocks s @ [b]\<rparr>, [Send (Channel ''block'') (Block_msg b)], Returns b)"
    and d: "data b = Some \<lparr> key = k, val = v \<rparr>"
    by blast
  from Cons.IH [of "s\<lparr>blocks := blocks s @ [b]\<rparr>"] obtain bs effs rs where
    r: "put_each cput (s\<lparr>blocks := blocks s @ [b]\<rparr>) kvs = (s\<lparr>blocks := blocks s @ b # bs\<rparr>, effs, rs)"
    and m: "map data bs = map (\<lambda>(k, v). Some \<lparr> key = k, val = v \<rparr>) kvs"
    by auto
  have "put_each cput s (kv # kvs) =
          (s\<lparr>blocks := blocks s @ (b # bs)\<rparr>, Send (Channel ''block'') (Block_msg b) # effs, Returns b # rs)"
    by (simp add: kv p r)
  moreover have "map data (b # bs) = map (\<lambda>(k, v). Some \<lparr> key = k, val = v \<rparr>) (kv # kvs)"
    by (simp add: kv d m)
  ultimately show ?case by blast
qed

lemma find_key_append:
  "find_key k (xs @ ys) = (case find_key k xs of Inr None \<Rightarrow> find_key k ys | r \<Rightarrow> r)"
  by (induction xs) (auto split: option.splits)

lemma absent_written:
  assumes "map data bs = map (\<lambda>(k, v). Some \<lparr> key = k, val = v \<rparr>) kvs" and "x \<notin> fst ` set kvs"
  shows "absent x bs"
  using assms
proof (induction bs arbitrary: kvs)
  case Nil
  then show ?case by (simp add: absent_def)
next
  case (Cons b bs)
  then obtain k v kvs' where kvs: "kvs = (k, v) # kvs'" by (cases kvs) auto
  with Cons.prems have "data b = Some \<lparr> key = k, val = v \<rparr>" and "k \<noteq> x"
    and "map data bs = map (\<lambda>(k, v). Some \<lparr> key = k, val = v \<rparr>) kvs'" and "x \<notin> fst ` set kvs'"
    by auto
  with Cons.IH [of kvs'] show ?case by (simp add: absent_def)
qed

lemma get_after_write:
  assumes "data b = Some \<lparr> key = k, val = v \<rparr>" and "absent k bs" and "blocks s = old @ b # bs"
  shows "get s k = (s\<lparr>tries := 0\<rparr>, [], Returns (Data \<lparr> key = k, val = v \<rparr>))"
proof -
  have "find_key k (rev bs) = Inr None"
    using assms(2) by (simp add: find_key_miss)
  then have "find_key k (rev (blocks s)) = Inr (Some b)"
    using assms(1,3) by (simp add: find_key_append)
  with assms(1) show ?thesis
    by (simp add: get_def get_try_def try_catch_def)
qed

text \<open>
  C5. After \<^verbatim>\<open>put(k, v)\<close>, and any later calls of \<^verbatim>\<open>put\<close> for other keys, \<^verbatim>\<open>get(k)\<close>
  returns \<^verbatim>\<open>{ key: k, value: v }\<close> from its first scan: no key request, no timer, and the
  counter of tries is set to 0. The store's append is asked to append (\<open>appends\<close>).
\<close>

theorem put_get_roundtrip:
  assumes "appends cput" and "k \<notin> fst ` set kvs"
  shows "\<exists>s1 effs rs. put_each cput s ((k, v) # kvs) = (s1, effs, rs)
           \<and> get s1 k = (s1\<lparr>tries := 0\<rparr>, [], Returns (Data \<lparr> key = k, val = v \<rparr>))"
proof -
  from put_each_appends [OF assms(1), of s "(k, v) # kvs"] obtain bs effs rs where
    p: "put_each cput s ((k, v) # kvs) = (s\<lparr>blocks := blocks s @ bs\<rparr>, effs, rs)"
    and m: "map data bs = map (\<lambda>(k, v). Some \<lparr> key = k, val = v \<rparr>) ((k, v) # kvs)"
    by blast
  from m obtain b bs' where bs: "bs = b # bs'" and d: "data b = Some \<lparr> key = k, val = v \<rparr>"
    and m': "map data bs' = map (\<lambda>(k, v). Some \<lparr> key = k, val = v \<rparr>) kvs"
    by (cases bs) auto
  from m' assms(2) have a: "absent k bs'" by (rule absent_written)
  have "get (s\<lparr>blocks := blocks s @ bs\<rparr>) k =
          (s\<lparr>blocks := blocks s @ bs, tries := 0\<rparr>, [], Returns (Data \<lparr> key = k, val = v \<rparr>))"
    using get_after_write [OF d a, of "s\<lparr>blocks := blocks s @ bs\<rparr>" "blocks s"] by (simp add: bs)
  with p show ?thesis by blast
qed

lemma appends_chain_put: "appends (chain_put new_id)"
  by (simp add: appends_def chain_put_def Let_def)

text \<open>On a fresh node with the store of the spec: \<^verbatim>\<open>put("x", 1)\<close>, \<^verbatim>\<open>put("y", 9)\<close>, \<^verbatim>\<open>get("x")\<close>.\<close>

theorem put_get_roundtrip_witness:
  "appends (chain_put counting_id :: (string, nat) entry \<Rightarrow> _) \<and> ''x'' \<notin> fst ` set [(''y'', 9::nat)]
   \<and> fst (put_each (chain_put counting_id) node1 [(''x'', 1), (''y'', 9)]) =
        node1\<lparr>blocks := [\<lparr> block_id = ''#'', data = Some \<lparr> key = ''x'', val = 1 \<rparr> \<rparr>,
                         \<lparr> block_id = ''##'', data = Some \<lparr> key = ''y'', val = 9 \<rparr> \<rparr>]\<rparr>
   \<and> get (fst (put_each (chain_put counting_id) node1 [(''x'', 1), (''y'', 9)])) ''x'' =
        ((fst (put_each (chain_put counting_id) node1 [(''x'', 1), (''y'', 9)]))\<lparr>tries := 0\<rparr>, [],
         Returns (Data \<lparr> key = ''x'', val = 1 \<rparr>))"
proof -
  have a: "appends (chain_put counting_id :: (string, nat) entry \<Rightarrow> _)"
    by (rule appends_chain_put)
  have n: "''x'' \<notin> fst ` set [(''y'', 9::nat)]"
    by simp
  have p: "put_each (chain_put counting_id) node1 [(''x'', 1), (''y'', 9)] =
        (node1\<lparr>blocks := [\<lparr> block_id = ''#'', data = Some \<lparr> key = ''x'', val = 1 \<rparr> \<rparr>,
                         \<lparr> block_id = ''##'', data = Some \<lparr> key = ''y'', val = 9 \<rparr> \<rparr>]\<rparr>,
         [Send (Channel ''block'') (Block_msg \<lparr> block_id = ''#'', data = Some \<lparr> key = ''x'', val = 1 \<rparr> \<rparr>),
          Send (Channel ''block'') (Block_msg \<lparr> block_id = ''##'', data = Some \<lparr> key = ''y'', val = 9 \<rparr> \<rparr>)],
         [Returns \<lparr> block_id = ''#'', data = Some \<lparr> key = ''x'', val = 1 \<rparr> \<rparr>,
          Returns \<lparr> block_id = ''##'', data = Some \<lparr> key = ''y'', val = 9 \<rparr> \<rparr>])"
    by (simp add: put_def chain_put_def counting_id_def node1_def Ledger_def Let_def)
  note th = put_get_roundtrip [OF a n, of node1 1, unfolded p]
  show ?thesis
    unfolding p using th a n by simp
qed

section \<open>get_history\<close>

lemma filter_key_well_formed:
  "well_formed bs \<Longrightarrow>
     \<exists>kept. filter_key k bs = Inr kept
        \<and> List.map_filter data kept = [d \<leftarrow> chain_entries bs. key d = k]
        \<and> map data kept = map Some (List.map_filter data kept)"
proof (induction bs)
  case Nil
  then show ?case by (simp add: chain_entries_def)
next
  case (Cons b bs)
  then obtain d where d: "data b = Some d" and w: "well_formed bs"
    by (auto simp: well_formed_def)
  from Cons.IH [OF w] obtain kept where "filter_key k bs = Inr kept"
    and "List.map_filter data kept = [d \<leftarrow> chain_entries bs. key d = k]"
    and "map data kept = map Some (List.map_filter data kept)"
    by blast
  with d show ?case by (simp add: chain_entries_def)
qed

lemma get_history_well_formed:
  assumes "well_formed (blocks s)"
  shows "get_history s k = (s, [], Returns (Datas [d \<leftarrow> chain_entries (blocks s). key d = k]))"
proof -
  from filter_key_well_formed [OF assms, of k] obtain kept where
    "filter_key k (blocks s) = Inr kept"
    and "List.map_filter data kept = [d \<leftarrow> chain_entries (blocks s). key d = k]"
    by blast
  then show ?thesis
    by (simp add: get_history_def get_history_try_def try_catch_def)
qed

lemma get_history_effects: "fst (snd (get_history s k)) = []"
  by (simp add: get_history_def get_history_try_def try_catch_def split: sum.splits)

lemma get_history_tries: "tries (fst (get_history s k)) = tries s"
  by (simp add: get_history_def get_history_try_def try_catch_def split: sum.splits)

text \<open>
  C6. On a chain whose blocks all have data, \<^verbatim>\<open>get_history(k)\<close> returns the data of
  every block whose key is \<open>k\<close>, in the order of the chain, oldest first. In every
  state it sends nothing, sets no timer and leaves the counter of tries alone.
\<close>

theorem get_history_complete:
  "(well_formed (blocks s) \<longrightarrow>
      get_history s k = (s, [], Returns (Datas [d \<leftarrow> chain_entries (blocks s). key d = k])))
   \<and> fst (snd (get_history s k)) = [] \<and> tries (fst (get_history s k)) = tries s"
  by (simp add: get_history_well_formed get_history_effects get_history_tries)

lemma three_puts_eq:
  "three_puts =
     node1\<lparr>blocks := [\<lparr> block_id = ''#'', data = Some \<lparr> key = ''x'', val = 1 \<rparr> \<rparr>,
                      \<lparr> block_id = ''##'', data = Some \<lparr> key = ''y'', val = 9 \<rparr> \<rparr>,
                      \<lparr> block_id = ''###'', data = Some \<lparr> key = ''x'', val = 2 \<rparr> \<rparr>]\<rparr>"
  by (simp add: three_puts_def put_def chain_put_def counting_id_def node1_def Ledger_def Let_def)

text \<open>The example of the spec: after the three puts, the history of \<^verbatim>\<open>"x"\<close> is 1, then 2.\<close>

theorem get_history_complete_witness:
  "well_formed (blocks three_puts)
   \<and> get_history three_puts ''x'' =
       (three_puts, [], Returns (Datas [\<lparr> key = ''x'', val = 1 \<rparr>, \<lparr> key = ''x'', val = 2 \<rparr>]))"
proof -
  have w: "well_formed (blocks three_puts)"
    by (simp add: three_puts_eq well_formed_def)
  have c: "[d \<leftarrow> chain_entries (blocks three_puts). key d = ''x'']
             = [\<lparr> key = ''x'', val = 1 \<rparr>, \<lparr> key = ''x'', val = 2 \<rparr>]"
    by (simp add: three_puts_eq chain_entries_def)
  from get_history_complete [of three_puts "''x''"] w show ?thesis
    by (simp add: c)
qed

section \<open>get_all\<close>

lemma remdups_snoc: "remdups (xs @ [x]) = [y \<leftarrow> remdups xs. y \<noteq> x] @ [x]"
  by (induction xs) auto

lemma key_last_filter:
  assumes "k \<in> key ` set es"
  shows "key (last [d \<leftarrow> es. key d = k]) = k"
proof -
  from assms have "[d \<leftarrow> es. key d = k] \<noteq> []"
    by (auto simp: filter_empty_conv)
  then have "last [d \<leftarrow> es. key d = k] \<in> set [d \<leftarrow> es. key d = k]"
    by (rule last_in_set)
  then show ?thesis by simp
qed

lemma latest_per_key_snoc:
  "latest_per_key (es @ [e]) = e # [d \<leftarrow> latest_per_key es. key d \<noteq> key e]"
proof -
  let ?g = "\<lambda>k. last [d \<leftarrow> es. key d = k]"
  let ?g' = "\<lambda>k. last [d \<leftarrow> es @ [e]. key d = k]"
  let ?L = "rev (remdups (map key es))"
  have keys: "rev (remdups (map key (es @ [e]))) = key e # [k \<leftarrow> ?L. k \<noteq> key e]"
    by (simp add: remdups_snoc rev_filter)
  have new: "?g' (key e) = e"
    by simp
  have old: "map ?g' [k \<leftarrow> ?L. k \<noteq> key e] = map ?g [k \<leftarrow> ?L. k \<noteq> key e]"
    by (rule map_cong) auto
  have "[d \<leftarrow> map ?g ?L. key d \<noteq> key e] = map ?g [k \<leftarrow> ?L. key (?g k) \<noteq> key e]"
    by (simp add: filter_map comp_def)
  also have "[k \<leftarrow> ?L. key (?g k) \<noteq> key e] = [k \<leftarrow> ?L. k \<noteq> key e]"
    by (rule filter_cong) (auto simp: key_last_filter)
  finally have "[d \<leftarrow> latest_per_key es. key d \<noteq> key e] = map ?g [k \<leftarrow> ?L. k \<noteq> key e]"
    by (simp add: latest_per_key_def)
  with keys new old show ?thesis
    by (simp add: latest_per_key_def del: filter_append map_append)
qed

lemma latest_filter_entries:
  "latest_filter latest (map Some (rev es)) = Inr [d \<leftarrow> latest_per_key es. key d \<notin> latest]"
proof (induction es arbitrary: latest rule: rev_induct)
  case Nil
  then show ?case by (simp add: latest_per_key_def)
next
  case (snoc e es)
  have "[d \<leftarrow> latest_per_key es. key d \<notin> insert (key e) latest]
          = [d \<leftarrow> [d \<leftarrow> latest_per_key es. key d \<noteq> key e]. key d \<notin> latest]"
    by (auto intro: filter_cong)
  then show ?case
    by (simp add: snoc.IH latest_per_key_snoc Let_def)
qed

lemma well_formed_entries: "well_formed bs \<Longrightarrow> map data bs = map Some (chain_entries bs)"
  by (induction bs) (auto simp: well_formed_def chain_entries_def)

lemma get_all_well_formed:
  assumes "well_formed (blocks s)"
  shows "get_all s = (s, [], Returns (Datas (latest_per_key (chain_entries (blocks s)))))"
proof -
  have "rev (map data (blocks s)) = map Some (rev (chain_entries (blocks s)))"
    by (simp add: well_formed_entries [OF assms] rev_map)
  then show ?thesis
    by (simp add: get_all_def get_all_try_def try_catch_def latest_filter_entries)
qed


lemma filter_eq_distinct: "distinct xs \<Longrightarrow> k \<in> set xs \<Longrightarrow> [y \<leftarrow> xs. y = k] = [k]"
  by (induction xs) (auto simp: filter_empty_conv)

lemma filter_latest_per_key:
  assumes "k \<in> key ` set es"
  shows "[d \<leftarrow> latest_per_key es. key d = k] = [last [d \<leftarrow> es. key d = k]]"
proof -
  let ?g = "\<lambda>k. last [d \<leftarrow> es. key d = k]"
  let ?L = "rev (remdups (map key es))"
  have "[d \<leftarrow> map ?g ?L. key d = k] = map ?g [k' \<leftarrow> ?L. key (?g k') = k]"
    by (simp add: filter_map comp_def)
  also have "[k' \<leftarrow> ?L. key (?g k') = k] = [k' \<leftarrow> ?L. k' = k]"
    by (rule filter_cong) (auto simp: key_last_filter)
  also have "\<dots> = [k]"
    using assms by (intro filter_eq_distinct) auto
  finally show ?thesis
    by (simp add: latest_per_key_def)
qed

lemma chain_entries_written:
  "map data bs = map Some ds \<Longrightarrow> chain_entries bs = ds \<and> well_formed bs"
proof (induction bs arbitrary: ds)
  case Nil
  then show ?case by (simp add: chain_entries_def well_formed_def)
next
  case (Cons b bs)
  then obtain d ds' where "ds = d # ds'" "data b = Some d" "map data bs = map Some ds'"
    by (cases ds) auto
  with Cons.IH [of ds'] show ?case
    by (simp add: chain_entries_def well_formed_def)
qed

lemma chain_entries_append: "chain_entries (xs @ ys) = chain_entries xs @ chain_entries ys"
  by (simp add: chain_entries_def map_filter_def)

lemma well_formed_append: "well_formed (xs @ ys) \<longleftrightarrow> well_formed xs \<and> well_formed ys"
  by (simp add: well_formed_def)

text \<open>
  C4. On a chain whose blocks all have data, \<^verbatim>\<open>get_all()\<close> returns \<open>latest_per_key\<close>
  of the chain's payloads: for each distinct key the data of the block appended last, the
  keys in the order of their first occurrence from the newest block on. And after
  \<^verbatim>\<open>put(x, v1)\<close> and later \<^verbatim>\<open>put(x, v2)\<close>, with calls of \<^verbatim>\<open>put\<close> for other keys only in
  between and after, \<^verbatim>\<open>get(x)\<close> returns the data with \<open>v2\<close>, and the result of
  \<^verbatim>\<open>get_all()\<close> has exactly one entry with key \<open>x\<close>, which holds \<open>v2\<close>. The store's
  append is asked to append (\<open>appends\<close>).
\<close>

theorem latest_wins:
  assumes "well_formed (blocks s)"
  shows "get_all s = (s, [], Returns (Datas (latest_per_key (chain_entries (blocks s)))))
         \<and> (appends cput \<and> x \<notin> fst ` set kvs1 \<and> x \<notin> fst ` set kvs2 \<longrightarrow>
              (\<exists>s2 effs rs es. put_each cput s ((x, v1) # kvs1 @ (x, v2) # kvs2) = (s2, effs, rs)
                 \<and> get s2 x = (s2\<lparr>tries := 0\<rparr>, [], Returns (Data \<lparr> key = x, val = v2 \<rparr>))
                 \<and> get_all s2 = (s2, [], Returns (Datas es))
                 \<and> [e \<leftarrow> es. key e = x] = [\<lparr> key = x, val = v2 \<rparr>]))"
proof (intro conjI impI)
  show "get_all s = (s, [], Returns (Datas (latest_per_key (chain_entries (blocks s)))))"
    using assms by (rule get_all_well_formed)
next
  assume "appends cput \<and> x \<notin> fst ` set kvs1 \<and> x \<notin> fst ` set kvs2"
  then have ap: "appends cput" and x1: "x \<notin> fst ` set kvs1" and x2: "x \<notin> fst ` set kvs2"
    by simp_all
  let ?mk = "\<lambda>(k, v). \<lparr> key = k, val = v \<rparr>"
  let ?kvs = "(x, v1) # kvs1 @ (x, v2) # kvs2"
  from put_each_appends [OF ap, of s ?kvs] obtain bs effs rs where
    p: "put_each cput s ?kvs = (s\<lparr>blocks := blocks s @ bs\<rparr>, effs, rs)"
    and m: "map data bs = map (\<lambda>(k, v). Some \<lparr> key = k, val = v \<rparr>) ?kvs"
    by blast
  let ?s2 = "s\<lparr>blocks := blocks s @ bs\<rparr>"
  have m': "map data bs = map Some (map ?mk ?kvs)"
    unfolding m by (simp add: case_prod_beta)
  from m obtain b1 bs1 b2 bs2 where bs: "bs = (b1 # bs1) @ b2 # bs2"
    and d2: "data b2 = Some \<lparr> key = x, val = v2 \<rparr>"
    and m2: "map data bs2 = map (\<lambda>(k, v). Some \<lparr> key = k, val = v \<rparr>) kvs2"
    by (auto simp: map_eq_Cons_conv map_eq_append_conv)
  from m2 x2 have a2: "absent x bs2" by (rule absent_written)
  have g: "get ?s2 x = (?s2\<lparr>tries := 0\<rparr>, [], Returns (Data \<lparr> key = x, val = v2 \<rparr>))"
    using get_after_write [OF d2 a2, of ?s2 "blocks s @ b1 # bs1"] by (simp add: bs)
  from chain_entries_written [OF m'] have e: "chain_entries bs = map ?mk ?kvs" and w: "well_formed bs"
    by simp_all
  let ?es = "chain_entries (blocks s @ bs)"
  have es: "?es = (chain_entries (blocks s) @ map ?mk ((x, v1) # kvs1)) @ \<lparr> key = x, val = v2 \<rparr> # map ?mk kvs2"
    by (simp add: chain_entries_append e)
  have no: "[d \<leftarrow> map ?mk kvs2. key d = x] = []"
    using x2 by (force simp: filter_empty_conv)
  have l: "last [d \<leftarrow> ?es. key d = x] = \<lparr> key = x, val = v2 \<rparr>"
    unfolding es by (simp add: no del: map_append)
  have "x \<in> key ` set ?es"
    unfolding es by (simp add: image_iff del: map_append) 
  then have f: "[d \<leftarrow> latest_per_key ?es. key d = x] = [\<lparr> key = x, val = v2 \<rparr>]"
    by (simp add: filter_latest_per_key l)
  have "well_formed (blocks ?s2)"
    using assms w by (simp add: well_formed_append)
  then have ga: "get_all ?s2 = (?s2, [], Returns (Datas (latest_per_key ?es)))"
    using get_all_well_formed [of ?s2] by simp
  from p g ga f
  show "\<exists>s2 effs rs es. put_each cput s ((x, v1) # kvs1 @ (x, v2) # kvs2) = (s2, effs, rs)
          \<and> get s2 x = (s2\<lparr>tries := 0\<rparr>, [], Returns (Data \<lparr> key = x, val = v2 \<rparr>))
          \<and> get_all s2 = (s2, [], Returns (Datas es))
          \<and> [e \<leftarrow> es. key e = x] = [\<lparr> key = x, val = v2 \<rparr>]"
    by blast
qed

text \<open>
  On a fresh node with the store of the spec: \<^verbatim>\<open>put("x", 1)\<close>, \<^verbatim>\<open>put("x", 2)\<close>,
  \<^verbatim>\<open>put("y", 9)\<close>; then \<^verbatim>\<open>get_all()\<close> returns the entry of \<^verbatim>\<open>"y"\<close>, then the one of
  \<^verbatim>\<open>"x"\<close> with 2.
\<close>

theorem latest_wins_witness:
  "appends (chain_put counting_id :: (string, nat) entry \<Rightarrow> _) \<and> well_formed (blocks node1)
   \<and> ''x'' \<notin> fst ` set ([] :: (string \<times> nat) list) \<and> ''x'' \<notin> fst ` set [(''y'', 9::nat)]
   \<and> get (fst (put_each (chain_put counting_id) node1 [(''x'', 1), (''x'', 2), (''y'', 9)])) ''x'' =
        ((fst (put_each (chain_put counting_id) node1 [(''x'', 1), (''x'', 2), (''y'', 9)]))\<lparr>tries := 0\<rparr>,
         [], Returns (Data \<lparr> key = ''x'', val = 2 \<rparr>))
   \<and> get_all (fst (put_each (chain_put counting_id) node1 [(''x'', 1), (''x'', 2), (''y'', 9)])) =
        (fst (put_each (chain_put counting_id) node1 [(''x'', 1), (''x'', 2), (''y'', 9)]),
         [], Returns (Datas [\<lparr> key = ''y'', val = 9 \<rparr>, \<lparr> key = ''x'', val = 2 \<rparr>]))"
proof -
  have a: "appends (chain_put counting_id :: (string, nat) entry \<Rightarrow> _)"
    by (rule appends_chain_put)
  have w: "well_formed (blocks node1)"
    by (simp add: node1_def Ledger_def well_formed_def)
  have n1: "''x'' \<notin> fst ` set ([] :: (string \<times> nat) list)" and n2: "''x'' \<notin> fst ` set [(''y'', 9::nat)]"
    by simp_all
  have p: "put_each (chain_put counting_id) node1 [(''x'', 1), (''x'', 2), (''y'', 9)] =
        (node1\<lparr>blocks := [\<lparr> block_id = ''#'', data = Some \<lparr> key = ''x'', val = 1 \<rparr> \<rparr>,
                         \<lparr> block_id = ''##'', data = Some \<lparr> key = ''x'', val = 2 \<rparr> \<rparr>,
                         \<lparr> block_id = ''###'', data = Some \<lparr> key = ''y'', val = 9 \<rparr> \<rparr>]\<rparr>,
         [Send (Channel ''block'') (Block_msg \<lparr> block_id = ''#'', data = Some \<lparr> key = ''x'', val = 1 \<rparr> \<rparr>),
          Send (Channel ''block'') (Block_msg \<lparr> block_id = ''##'', data = Some \<lparr> key = ''x'', val = 2 \<rparr> \<rparr>),
          Send (Channel ''block'') (Block_msg \<lparr> block_id = ''###'', data = Some \<lparr> key = ''y'', val = 9 \<rparr> \<rparr>)],
         [Returns \<lparr> block_id = ''#'', data = Some \<lparr> key = ''x'', val = 1 \<rparr> \<rparr>,
          Returns \<lparr> block_id = ''##'', data = Some \<lparr> key = ''x'', val = 2 \<rparr> \<rparr>,
          Returns \<lparr> block_id = ''###'', data = Some \<lparr> key = ''y'', val = 9 \<rparr> \<rparr>])"
    by (simp add: put_def chain_put_def counting_id_def node1_def Ledger_def Let_def)
  have ga: "get_all (node1\<lparr>blocks := [\<lparr> block_id = ''#'', data = Some \<lparr> key = ''x'', val = 1 \<rparr> \<rparr>,
                         \<lparr> block_id = ''##'', data = Some \<lparr> key = ''x'', val = 2 \<rparr> \<rparr>,
                         \<lparr> block_id = ''###'', data = Some \<lparr> key = ''y'', val = 9 \<rparr> \<rparr>]\<rparr>) =
        (node1\<lparr>blocks := [\<lparr> block_id = ''#'', data = Some \<lparr> key = ''x'', val = 1 \<rparr> \<rparr>,
                         \<lparr> block_id = ''##'', data = Some \<lparr> key = ''x'', val = 2 \<rparr> \<rparr>,
                         \<lparr> block_id = ''###'', data = Some \<lparr> key = ''y'', val = 9 \<rparr> \<rparr>]\<rparr>,
         [], Returns (Datas [\<lparr> key = ''y'', val = 9 \<rparr>, \<lparr> key = ''x'', val = 2 \<rparr>]))"
    by (simp add: get_all_def get_all_try_def try_catch_def)
  note th = latest_wins [OF w, of "chain_put counting_id" "''x''" "[]" "[(''y'', 9)]" 1 2,
      unfolded append_Nil p]
  show ?thesis
    unfolding p using th a w n2 ga by simp
qed

section \<open>Exceptions in the readers\<close>

lemma filter_key_raises: "\<not> well_formed bs \<Longrightarrow> filter_key k bs = Inl TypeError"
  by (induction bs) (auto simp: well_formed_def split: option.splits sum.splits)

lemma latest_filter_raises: "None \<in> set es \<Longrightarrow> latest_filter latest es = Inl TypeError"
proof (induction es arbitrary: latest)
  case Nil
  then show ?case by simp
next
  case (Cons e es)
  then show ?case by (cases e) (auto simp: Let_def split: sum.splits)
qed

lemma not_well_formed_None: "\<not> well_formed bs \<longleftrightarrow> None \<in> set (rev (map data bs))"
  by (auto simp: well_formed_def list_all_iff image_iff) metis+

lemma get_value:
  "\<exists>s' effs v. get s k = (s', effs, Returns v)
      \<and> (v = Undefined \<or> v = Str ''unable to find.'' \<or> (\<exists>d. v = Data d))"
  by (auto simp: get_def get_try_def try_catch_def Let_def split: sum.splits option.splits)

lemma get_history_value:
  "\<exists>s' effs v. get_history s k = (s', effs, Returns v) \<and> (v = Undefined \<or> (\<exists>ds. v = Datas ds))"
  by (auto simp: get_history_def get_history_try_def try_catch_def split: sum.splits)

lemma get_all_value:
  "\<exists>s' effs v. get_all s = (s', effs, Returns v) \<and> (v = Undefined \<or> (\<exists>ds. v = Datas ds))"
  by (auto simp: get_all_def get_all_try_def try_catch_def Let_def split: sum.splits)

text \<open>
  C7. The three readers return in every state: \<^verbatim>\<open>get\<close> returns a data, the sentinel
  or undefined, \<^verbatim>\<open>get_history\<close> and \<^verbatim>\<open>get_all\<close> return a list of data or undefined. An
  exception of the scan (a block without data that the scan of \<^verbatim>\<open>get\<close> meets, or that
  the chain holds anywhere for the other two) is appended to \<^verbatim>\<open>this.errors\<close>, and the
  reader returns undefined.
\<close>

theorem accessors_never_throw:
  "(\<exists>s' effs v. get s k = (s', effs, Returns v)
        \<and> (v = Undefined \<or> v = Str ''unable to find.'' \<or> (\<exists>d. v = Data d)))
   \<and> (\<exists>s' effs v. get_history s k = (s', effs, Returns v) \<and> (v = Undefined \<or> (\<exists>ds. v = Datas ds)))
   \<and> (\<exists>s' effs v. get_all s = (s', effs, Returns v) \<and> (v = Undefined \<or> (\<exists>ds. v = Datas ds)))
   \<and> (find_key k (rev (blocks s)) = Inl e \<longrightarrow>
         get s k = (s\<lparr>errors := errors s @ [e]\<rparr>, [], Returns Undefined))
   \<and> (\<not> well_formed (blocks s) \<longrightarrow>
         get_history s k = (s\<lparr>errors := errors s @ [TypeError]\<rparr>, [], Returns Undefined)
         \<and> get_all s = (s\<lparr>errors := errors s @ [TypeError]\<rparr>, [], Returns Undefined))"
proof -
  have "get s k = (s\<lparr>errors := errors s @ [e]\<rparr>, [], Returns Undefined)"
    if "find_key k (rev (blocks s)) = Inl e"
    using that by (simp add: get_def get_try_def try_catch_def)
  moreover have "get_history s k = (s\<lparr>errors := errors s @ [TypeError]\<rparr>, [], Returns Undefined)"
    if "\<not> well_formed (blocks s)"
    using filter_key_raises [OF that, of k]
    by (simp add: get_history_def get_history_try_def try_catch_def)
  moreover have "get_all s = (s\<lparr>errors := errors s @ [TypeError]\<rparr>, [], Returns Undefined)"
    if "\<not> well_formed (blocks s)"
  proof -
    from that have "None \<in> set (rev (map data (blocks s)))"
      by (simp only: not_well_formed_None)
    then have "latest_filter {} (rev (map data (blocks s))) = Inl TypeError"
      by (rule latest_filter_raises)
    then show ?thesis
      by (simp add: get_all_def get_all_try_def try_catch_def)
  qed
  ultimately show ?thesis
    using get_value [of s k] get_history_value [of s k] get_all_value [of s] by blast
qed

text \<open>On a chain whose newest block has no data, each reader logs a TypeError.\<close>

theorem accessors_never_throw_witness:
  "find_key ''x'' (rev (blocks broken)) = Inl TypeError
   \<and> \<not> well_formed (blocks broken)
   \<and> get broken ''x'' = (broken\<lparr>errors := [TypeError]\<rparr>, [], Returns Undefined)
   \<and> get_history broken ''x'' = (broken\<lparr>errors := [TypeError]\<rparr>, [], Returns Undefined)
   \<and> get_all broken = (broken\<lparr>errors := [TypeError]\<rparr>, [], Returns Undefined)"
proof -
  have f: "find_key ''x'' (rev (blocks broken)) = Inl TypeError"
    and w: "\<not> well_formed (blocks broken)"
    and e: "errors broken = []"
    by (simp_all add: broken_def well_formed_def node1_def Ledger_def)
  from accessors_never_throw [of broken "''x''" TypeError] f w show ?thesis
    by (simp add: e)
qed

section \<open>The reconciliation session\<close>

lemma on_requested_block_own:
  assumes "nm = name s" and "length (received_blocks s) \<noteq> length (missing_blocks s)"
  shows "on_requested_block add sortBlocks s b nm = s"
  using assms by (simp add: on_requested_block_def)

lemma on_requested_block_pending:
  assumes "nm \<noteq> name s" and "Suc (length (received_blocks s)) \<noteq> length (missing_blocks s)"
  shows "on_requested_block add sortBlocks s b nm =
           s\<lparr>received_blocks := received_blocks s @ [b], blocks := add (blocks s) b\<rparr>"
  using assms by (simp add: on_requested_block_def)

lemma on_requested_block_last:
  assumes "nm \<noteq> name s" and "Suc (length (received_blocks s)) = length (missing_blocks s)"
  shows "on_requested_block add sortBlocks s b nm =
           s\<lparr>blocks := sortBlocks (add (blocks s) b), missing_blocks := [], received_blocks := []\<rparr>"
  using assms by (simp add: on_requested_block_def)

lemma deliver_blocks_pending:
  assumes "length (received_blocks s) + length (peer_blocks (name s) msgs) < length (missing_blocks s)"
  shows "deliver_blocks add sortBlocks s msgs =
           s\<lparr>received_blocks := received_blocks s @ peer_blocks (name s) msgs,
              blocks := foldl add (blocks s) (peer_blocks (name s) msgs)\<rparr>"
  using assms
proof (induction msgs arbitrary: s)
  case Nil
  then show ?case by (simp add: peer_blocks_def)
next
  case (Cons m msgs)
  obtain b nm where m: "m = (b, nm)" by (cases m)
  note prems = Cons.prems [unfolded m]
  show ?case
    unfolding m
  proof (cases "nm = name s")
    case True
    then have pb: "peer_blocks (name s) ((b, nm) # msgs) = peer_blocks (name s) msgs"
      by (simp add: peer_blocks_def)
    from True prems have "on_requested_block add sortBlocks s b nm = s"
      unfolding pb by (intro on_requested_block_own) auto
    moreover from prems have "deliver_blocks add sortBlocks s msgs =
        s\<lparr>received_blocks := received_blocks s @ peer_blocks (name s) msgs,
           blocks := foldl add (blocks s) (peer_blocks (name s) msgs)\<rparr>"
      unfolding pb by (rule Cons.IH)
    ultimately show "deliver_blocks add sortBlocks s ((b, nm) # msgs) =
        s\<lparr>received_blocks := received_blocks s @ peer_blocks (name s) ((b, nm) # msgs),
           blocks := foldl add (blocks s) (peer_blocks (name s) ((b, nm) # msgs))\<rparr>"
      by (simp add: pb)
  next
    case False
    let ?s1 = "s\<lparr>received_blocks := received_blocks s @ [b], blocks := add (blocks s) b\<rparr>"
    from False have pb: "peer_blocks (name s) ((b, nm) # msgs) = b # peer_blocks (name s) msgs"
      by (simp add: peer_blocks_def)
    from False prems have "on_requested_block add sortBlocks s b nm = ?s1"
      unfolding pb by (intro on_requested_block_pending) auto
    moreover from prems have "deliver_blocks add sortBlocks ?s1 msgs =
        ?s1\<lparr>received_blocks := received_blocks ?s1 @ peer_blocks (name ?s1) msgs,
             blocks := foldl add (blocks ?s1) (peer_blocks (name ?s1) msgs)\<rparr>"
      unfolding pb by (intro Cons.IH) auto
    ultimately show "deliver_blocks add sortBlocks s ((b, nm) # msgs) =
        s\<lparr>received_blocks := received_blocks s @ peer_blocks (name s) ((b, nm) # msgs),
           blocks := foldl add (blocks s) (peer_blocks (name s) ((b, nm) # msgs))\<rparr>"
      by (simp add: pb)
  qed
qed

lemma deliver_blocks_append:
  "deliver_blocks add sortBlocks s (xs @ ys) =
     deliver_blocks add sortBlocks (deliver_blocks add sortBlocks s xs) ys"
  by (induction xs arbitrary: s) auto

lemma deliver_blocks_complete:
  assumes "nm \<noteq> name s"
    and "length (received_blocks s) + length (peer_blocks (name s) msgs) + 1 = length (missing_blocks s)"
  shows "deliver_blocks add sortBlocks s (msgs @ [(b, nm)]) =
           s\<lparr>blocks := sortBlocks (foldl add (blocks s) (peer_blocks (name s) msgs @ [b])),
              missing_blocks := [], received_blocks := []\<rparr>"
proof -
  let ?s1 = "s\<lparr>received_blocks := received_blocks s @ peer_blocks (name s) msgs,
               blocks := foldl add (blocks s) (peer_blocks (name s) msgs)\<rparr>"
  from assms(2) have "deliver_blocks add sortBlocks s msgs = ?s1"
    by (intro deliver_blocks_pending) auto
  moreover from assms have "on_requested_block add sortBlocks ?s1 b nm =
      ?s1\<lparr>blocks := sortBlocks (add (blocks ?s1) b), missing_blocks := [], received_blocks := []\<rparr>"
    by (intro on_requested_block_last) auto
  ultimately show ?thesis
    by (simp add: deliver_blocks_append)
qed

text \<open>
  A session that starts with fewer blocks received than missing runs as the comment in the
  handler says. \<^verbatim>\<open>requestMissingBlocks\<close> stores the identifiers that \<^verbatim>\<open>compare\<close> finds
  missing in the peer's block map. As long as the blocks received from peers are fewer
  than the missing ones, each of them is recorded and added, a delivery of the node's own
  does nothing, and nothing is sorted or cleared. The block of a peer that makes the two
  counts equal is added, and then the chain is sorted and both lists are emptied.
\<close>

lemma session_completes:
  "(length (received_blocks s) + length (peer_blocks (name s) msgs) < length (missing_blocks s) \<longrightarrow>
      deliver_blocks add sortBlocks s msgs =
        s\<lparr>received_blocks := received_blocks s @ peer_blocks (name s) msgs,
           blocks := foldl add (blocks s) (peer_blocks (name s) msgs)\<rparr>)
   \<and> (nm \<noteq> name s
        \<and> length (received_blocks s) + length (peer_blocks (name s) msgs) + 1 = length (missing_blocks s) \<longrightarrow>
      deliver_blocks add sortBlocks s (msgs @ [(b, nm)]) =
        s\<lparr>blocks := sortBlocks (foldl add (blocks s) (peer_blocks (name s) msgs @ [b])),
           missing_blocks := [], received_blocks := []\<rparr>)
   \<and> fst (requestMissingBlocks compare s block_map) =
        s\<lparr>missing_blocks := compare (blocks s) block_map\<rparr>"
  using deliver_blocks_pending [of s msgs add sortBlocks]
    deliver_blocks_complete [of nm s msgs add sortBlocks b]
  by (simp add: requestMissingBlocks_def Let_def)

text \<open>
  Two blocks are missing. A delivery of the node's own and the first block of a peer
  leave the session open and the chain unsorted; the second block of a peer completes
  it, and the chain is put in order.
\<close>

lemma session_completes_example:
  "missing_blocks behind = [''#'', ''##''] \<and> received_blocks behind = [] \<and> name behind = ''node1''
   \<and> peer_blocks (name behind) [(block1, ''node1''), (block2, ''node2'')] = [block2]
   \<and> deliver_blocks chain_add chain_sortBlocks behind [(block1, ''node1''), (block2, ''node2'')] =
        behind\<lparr>received_blocks := [block2], blocks := [block2]\<rparr>
   \<and> deliver_blocks chain_add chain_sortBlocks behind
        ([(block1, ''node1''), (block2, ''node2'')] @ [(block1, ''node2'')]) =
        behind\<lparr>blocks := [block1, block2], missing_blocks := [], received_blocks := []\<rparr>"
proof -
  have b: "behind = node1\<lparr>missing_blocks := [''#'', ''##'']\<rparr>"
    by (simp add: behind_def requestMissingBlocks_def chain_compare_def node1_def Ledger_def)
  have n: "missing_blocks behind = [''#'', ''##'']" "received_blocks behind = []"
    "name behind = ''node1''"
    by (simp_all add: b node1_def Ledger_def)
  have e: "blocks behind = []"
    by (simp add: b node1_def Ledger_def)
  have p: "peer_blocks (name behind) [(block1, ''node1''), (block2, ''node2'')] = [block2]"
    by (simp add: peer_blocks_def n)
  have a: "chain_add [] block2 = [block2]"
    "chain_sortBlocks (chain_add [block2] block1) = [block1, block2]"
    by (simp_all add: chain_add_def chain_sortBlocks_def block1_def block2_def)
  note th = session_completes [of behind "[(block1, ''node1''), (block2, ''node2'')]"
      chain_add chain_sortBlocks "''node2''" block1 chain_compare "[]", unfolded p]
  from th have "deliver_blocks chain_add chain_sortBlocks behind [(block1, ''node1''), (block2, ''node2'')] =
        behind\<lparr>received_blocks := [block2], blocks := [block2]\<rparr>"
    and "deliver_blocks chain_add chain_sortBlocks behind
        ([(block1, ''node1''), (block2, ''node2'')] @ [(block1, ''node2'')]) =
        behind\<lparr>blocks := [block1, block2], missing_blocks := [], received_blocks := []\<rparr>"
    by (simp_all add: n e a del: deliver_blocks.simps append.simps)
  with n p show ?thesis by (intro conjI)
qed

text \<open>
  Neither \<^verbatim>\<open>requestMissingBlocks\<close> nor any other code empties \<^verbatim>\<open>received_blocks\<close> when
  a session starts, and the handler tests the two counts for equality only. Once more
  blocks are recorded than are missing, no delivery sorts or clears anything.
\<close>

lemma on_requested_block_past:
  assumes "length (missing_blocks s) < length (received_blocks s)"
  shows "on_requested_block add sortBlocks s b nm =
           (if nm \<noteq> name s
            then s\<lparr>received_blocks := received_blocks s @ [b], blocks := add (blocks s) b\<rparr>
            else s)"
  using assms by (simp add: on_requested_block_def)

lemma deliver_blocks_stuck:
  assumes "length (missing_blocks s) < length (received_blocks s)"
  shows "deliver_blocks add sortBlocks s msgs =
           s\<lparr>received_blocks := received_blocks s @ peer_blocks (name s) msgs,
              blocks := foldl add (blocks s) (peer_blocks (name s) msgs)\<rparr>"
  using assms
proof (induction msgs arbitrary: s)
  case Nil
  then show ?case by (simp add: peer_blocks_def)
next
  case (Cons m msgs)
  obtain b nm where m: "m = (b, nm)" by (cases m)
  show ?case
  proof (cases "nm = name s")
    case True
    with Cons.prems have "on_requested_block add sortBlocks s b nm = s"
      by (simp add: on_requested_block_past)
    with True Cons.IH [OF Cons.prems] show ?thesis
      by (simp add: m peer_blocks_def)
  next
    case False
    let ?s1 = "s\<lparr>received_blocks := received_blocks s @ [b], blocks := add (blocks s) b\<rparr>"
    from False Cons.prems have "on_requested_block add sortBlocks s b nm = ?s1"
      by (simp add: on_requested_block_past)
    moreover from Cons.prems have "deliver_blocks add sortBlocks ?s1 msgs =
        ?s1\<lparr>received_blocks := received_blocks ?s1 @ peer_blocks (name ?s1) msgs,
             blocks := foldl add (blocks ?s1) (peer_blocks (name ?s1) msgs)\<rparr>"
      by (intro Cons.IH) simp
    ultimately show ?thesis
      using False by (simp add: m peer_blocks_def)
  qed
qed

text \<open>
  C2. The handler is to sort the chain and clear the session when the blocks received
  reach the number of the missing ones (its comment: sort the new blocks after they all
  arrive). It does not in this run of a fresh node: a block of a peer arrives while no
  session is open and is recorded; a block map then leaves one identifier missing, so that
  one block is recorded and one is missing, and nothing is sorted; the missing block
  arrives, two blocks are recorded against one missing, and the chain stays unsorted
  (\<open>chain_sortBlocks\<close> would swap the two blocks) and the lists stay as they are,
  whatever is delivered on the channel afterwards.
\<close>

theorem session_stuck:
  "on_requested_block chain_add chain_sortBlocks node1 block2 ''node2'' =
      node1\<lparr>received_blocks := [block2], blocks := [block2]\<rparr>
   \<and> on_message mapBlocks chain_compare (node1\<lparr>received_blocks := [block2], blocks := [block2]\<rparr>)
        (block_map_message [''#'', ''##'']) ''node2'' =
      (node1\<lparr>received_blocks := [block2], blocks := [block2], missing_blocks := [''#'']\<rparr>,
       [Send (Channel ''request_block'') (Block_id_msg ''#'')], Throws TypeError)
   \<and> on_requested_block chain_add chain_sortBlocks
        (node1\<lparr>received_blocks := [block2], blocks := [block2], missing_blocks := [''#'']\<rparr>)
        block1 ''node2'' =
      node1\<lparr>received_blocks := [block2, block1], blocks := [block2, block1],
            missing_blocks := [''#'']\<rparr>
   \<and> chain_sortBlocks [block2, block1] = [block1, block2]
   \<and> deliver_blocks chain_add chain_sortBlocks
        (node1\<lparr>received_blocks := [block2, block1], blocks := [block2, block1],
               missing_blocks := [''#'']\<rparr>) msgs =
      node1\<lparr>received_blocks := [block2, block1] @ peer_blocks ''node1'' msgs,
            blocks := foldl chain_add [block2, block1] (peer_blocks ''node1'' msgs),
            missing_blocks := [''#'']\<rparr>"
proof -
  have n: "name node1 = ''node1''" "blocks node1 = []" "received_blocks node1 = []"
    "missing_blocks node1 = []" "core node1 = None"
    by (simp_all add: node1_def Ledger_def)
  have b: "block1 \<noteq> block2" "block_id block1 = ''#''" "block_id block2 = ''##''"
    by (simp_all add: block1_def block2_def)
  have 1: "on_requested_block chain_add chain_sortBlocks node1 block2 ''node2'' =
      node1\<lparr>received_blocks := [block2], blocks := [block2]\<rparr>"
    by (simp add: on_requested_block_def n chain_add_def)
  have 2: "on_message mapBlocks chain_compare (node1\<lparr>received_blocks := [block2], blocks := [block2]\<rparr>)
        (block_map_message [''#'', ''##'']) ''node2'' =
      (node1\<lparr>received_blocks := [block2], blocks := [block2], missing_blocks := [''#'']\<rparr>,
       [Send (Channel ''request_block'') (Block_id_msg ''#'')], Throws TypeError)"
    by (simp add: on_message_def dispatch_def block_map_message_def requestMissingBlocks_def
        chain_compare_def n b Let_def)
  have 3: "on_requested_block chain_add chain_sortBlocks
        (node1\<lparr>received_blocks := [block2], blocks := [block2], missing_blocks := [''#'']\<rparr>)
        block1 ''node2'' =
      node1\<lparr>received_blocks := [block2, block1], blocks := [block2, block1],
            missing_blocks := [''#'']\<rparr>"
    by (simp add: on_requested_block_def n chain_add_def b)
  have 4: "chain_sortBlocks [block2, block1] = [block1, block2]"
    by (simp add: chain_sortBlocks_def b)
  have 5: "deliver_blocks chain_add chain_sortBlocks
        (node1\<lparr>received_blocks := [block2, block1], blocks := [block2, block1],
               missing_blocks := [''#'']\<rparr>) msgs =
      node1\<lparr>received_blocks := [block2, block1] @ peer_blocks ''node1'' msgs,
            blocks := foldl chain_add [block2, block1] (peer_blocks ''node1'' msgs),
            missing_blocks := [''#'']\<rparr>"
    by (subst deliver_blocks_stuck) (simp_all add: n)
  from 1 2 3 4 5 show ?thesis by (intro conjI)
qed

section \<open>The round of chain lengths\<close>

text \<open>
  No method and no handler of the Ledger assigns \<^verbatim>\<open>this.core\<close>. Without it every
  delivery to the handler of \<^verbatim>\<open>{ from: "" }\<close> ends in an exception, and no request for a
  block map is sent.
\<close>

lemma on_message_raises:
  assumes "core s = None"
  shows "\<exists>s' effs e. on_message mapBlocks compare s d ident = (s', effs, Throws e)
           \<and> core s' = None \<and> Send (To p) (Request_msg ''block_map'') \<notin> set effs"
  using assms
  by (auto simp: on_message_def dispatch_def addChainLength_def respondBlockMap_def
      requestMissingBlocks_def Let_def split: jsdata.splits option.splits nat.splits)

lemma local4_eq:
  "local4 = node1\<lparr>blocks :=
      [\<lparr> block_id = ''#'', data = Some \<lparr> key = ''a'', val = 1 \<rparr> \<rparr>,
       \<lparr> block_id = ''##'', data = Some \<lparr> key = ''b'', val = 2 \<rparr> \<rparr>,
       \<lparr> block_id = ''###'', data = Some \<lparr> key = ''c'', val = 3 \<rparr> \<rparr>,
       \<lparr> block_id = ''####'', data = Some \<lparr> key = ''d'', val = 4 \<rparr> \<rparr>]\<rparr>"
  by (simp add: local4_def put_def chain_put_def counting_id_def node1_def Ledger_def Let_def)

text \<open>
  C1. The example of the spec: three peers report the lengths 2, 5 and 7 to a node that
  holds 4 blocks. Each report is stored, each delivery (the first one already) raises a
  TypeError at \<^verbatim>\<open>this.core.getPeers()\<close>, and nothing is sent: no request for a block
  map goes to the peers that reported 5 and 7.
\<close>

theorem quorum_round_raises:
  "chain_length local4 = 4 \<and> core local4 = None
   \<and> on_message mapBlocks compare local4 (length_report 2) ''p1'' =
      (local4\<lparr>chain_lengths := [\<lparr> report_id = ''p1'', report_length = 2 \<rparr>]\<rparr>,
       [], Throws TypeError)
   \<and> deliver_messages mapBlocks compare local4
        [(length_report 2, ''p1''), (length_report 5, ''p2''), (length_report 7, ''p3'')] =
      (local4\<lparr>chain_lengths := [\<lparr> report_id = ''p1'', report_length = 2 \<rparr>,
                                  \<lparr> report_id = ''p2'', report_length = 5 \<rparr>,
                                  \<lparr> report_id = ''p3'', report_length = 7 \<rparr>]\<rparr>,
       [], [Throws TypeError, Throws TypeError, Throws TypeError])"
  by (simp add: local4_eq chain_length_def on_message_def dispatch_def addChainLength_def
      length_report_def node1_def Ledger_def numeral_eq_Suc)

text \<open>
  Were \<^verbatim>\<open>this.core\<close> the transport (as \<^verbatim>\<open>this.node.core\<close> is), the same round would
  request the block maps of the two longer peers, once the third report is in.
\<close>

lemma quorum_round_with_core:
  "deliver_messages mapBlocks compare (local4\<lparr>core := Some [''p1'', ''p2'', ''p3'']\<rparr>)
        [(length_report 2, ''p1''), (length_report 5, ''p2''), (length_report 7, ''p3'')] =
      (local4\<lparr>core := Some [''p1'', ''p2'', ''p3''],
              chain_lengths := [\<lparr> report_id = ''p1'', report_length = 2 \<rparr>,
                                \<lparr> report_id = ''p2'', report_length = 5 \<rparr>,
                                \<lparr> report_id = ''p3'', report_length = 7 \<rparr>]\<rparr>,
       [Send (To ''p2'') (Request_msg ''block_map''), Send (To ''p3'') (Request_msg ''block_map'')],
       [Returns (), Returns (), Returns ()])"
  by (simp add: local4_eq chain_length_def on_message_def dispatch_def addChainLength_def
      selectChain_def requestBlockMap_def length_report_def node1_def Ledger_def numeral_eq_Suc)

end
